theory Spec2Isabelle
  imports Main "HOL-Library.Char_ord" "HOL-Library.List_Lexorder" "HOL-Library.Multiset"
begin

section \<open>Byte strings\<close>

text \<open>
  The program is Python 2: a \<open>str\<close> is a byte string, compared byte by byte. A
  \<^typ>\<open>string\<close> is a list of 8-bit characters, ordered by \<open>Char_ord\<close> and
  \<open>List_Lexorder\<close> the way Python 2 orders \<open>str\<close>.
\<close>

definition nl :: char where
  "nl = CHR 0x0A"

definition squote :: char where
  "squote = CHR 0x27"

definition dquote :: char where
  "dquote = CHR 0x22"

definition backslash :: char where
  "backslash = CHR 0x5C"

definition slash :: char where
  "slash = CHR ''/''"

text \<open>\<open>s.startswith(p)\<close> and \<open>s.endswith(p)\<close>.\<close>

definition startswith :: "string \<Rightarrow> string \<Rightarrow> bool" where
  "startswith s p = (take (length p) s = p)"

definition endswith :: "string \<Rightarrow> string \<Rightarrow> bool" where
  "endswith s p = startswith (rev s) (rev p)"

text \<open>\<open>sub in s\<close> on strings.\<close>

fun contains :: "string \<Rightarrow> string \<Rightarrow> bool" where
  "contains [] sub = (sub = [])"
| "contains (c # cs) sub = (startswith (c # cs) sub \<or> contains cs sub)"

text \<open>\<open>s.lstrip(chars)\<close> and \<open>s.rstrip(chars)\<close>: \<open>chars\<close> is a set of characters,
  not a prefix.\<close>

definition lstrip :: "string \<Rightarrow> string \<Rightarrow> string" where
  "lstrip chars s = dropWhile (\<lambda>c. c \<in> set chars) s"

definition rstrip :: "string \<Rightarrow> string \<Rightarrow> string" where
  "rstrip chars s = rev (dropWhile (\<lambda>c. c \<in> set chars) (rev s))"

definition whitespace :: string where
  "whitespace = [CHR 0x20, CHR 0x09, CHR 0x0A, CHR 0x0B, CHR 0x0C, CHR 0x0D]"

text \<open>\<open>s.strip()\<close> and \<open>s.split()\<close> without arguments: runs of whitespace separate
  the words, and no word is empty.\<close>

definition strip :: "string \<Rightarrow> string" where
  "strip s = rstrip whitespace (lstrip whitespace s)"

fun split_ws :: "string \<Rightarrow> string \<Rightarrow> string list" where
  "split_ws cur [] = (if cur = [] then [] else [cur])"
| "split_ws cur (c # cs) =
     (if c \<in> set whitespace
      then (if cur = [] then split_ws [] cs else cur # split_ws [] cs)
      else split_ws (cur @ [c]) cs)"

definition split :: "string \<Rightarrow> string list" where
  "split s = split_ws [] s"

text \<open>\<open>s.split(d)\<close> with a one-character separator: empty fields are kept.\<close>

fun split_on :: "char \<Rightarrow> string \<Rightarrow> string \<Rightarrow> string list" where
  "split_on d cur [] = [cur]"
| "split_on d cur (c # cs) =
     (if c = d then cur # split_on d [] cs else split_on d (cur @ [c]) cs)"

text \<open>\<open>sep.join(xs)\<close>.\<close>

fun join_with :: "string \<Rightarrow> string list \<Rightarrow> string" where
  "join_with sep [] = []"
| "join_with sep [x] = x"
| "join_with sep (x # y # ys) = x @ sep @ join_with sep (y # ys)"

text \<open>\<open>fh.readline()\<close> on a freshly opened file: the text up to and including the
  first newline, or all of it; and the lines a \<open>for line in fh\<close> loop sees, each with
  its newline.\<close>

definition readline :: "string \<Rightarrow> string" where
  "readline s = takeWhile (\<lambda>c. c \<noteq> nl) s @ take 1 (dropWhile (\<lambda>c. c \<noteq> nl) s)"

fun file_lines :: "string \<Rightarrow> string \<Rightarrow> string list" where
  "file_lines cur [] = (if cur = [] then [] else [cur])"
| "file_lines cur (c # cs) =
     (if c = nl then (cur @ [c]) # file_lines [] cs else file_lines (cur @ [c]) cs)"

text \<open>\<open>str(n)\<close> of an integer, in decimal.\<close>

fun str_nat :: "nat \<Rightarrow> string" where
  "str_nat n =
     (if n < 10 then [''0123456789'' ! n]
      else str_nat (n div 10) @ [''0123456789'' ! (n mod 10)])"

declare str_nat.simps [simp del]

definition str_int :: "int \<Rightarrow> string" where
  "str_int i = (if i < 0 then CHR ''-'' # str_nat (nat (- i)) else str_nat (nat i))"

text \<open>\<open>repr(s)\<close> of a \<open>str\<close>, which \<open>%r\<close> formats with: single quotes unless the
  string has a single quote and no double quote; backslash, the quote, tab, newline and
  carriage return escaped; every other byte outside the printable ASCII range as
  \<open>\xNN\<close>.\<close>

definition hex2 :: "char \<Rightarrow> string" where
  "hex2 c = [''0123456789abcdef'' ! (of_char c div 16), ''0123456789abcdef'' ! (of_char c mod 16)]"

definition repr_char :: "char \<Rightarrow> char \<Rightarrow> string" where
  "repr_char q c =
     (if c = q \<or> c = backslash then [backslash, c]
      else if c = CHR 0x09 then [backslash, CHR ''t'']
      else if c = nl then [backslash, CHR ''n'']
      else if c = CHR 0x0D then [backslash, CHR ''r'']
      else if (of_char c :: nat) < 32 \<or> 127 \<le> (of_char c :: nat)
        then [backslash, CHR ''x''] @ hex2 c
      else [c])"

definition repr :: "string \<Rightarrow> string" where
  "repr s =
     (let q = (if squote \<in> set s \<and> dquote \<notin> set s then dquote else squote)
      in [q] @ concat (map (repr_char q) s) @ [q])"

definition repr_list :: "string list \<Rightarrow> string" where
  "repr_list xs = ''['' @ join_with '', '' (map repr xs) @ '']''"

section \<open>posixpath\<close>

text \<open>\<open>os.path.join(a, b)\<close>, \<open>basename\<close>, \<open>dirname\<close>, \<open>isabs\<close> and \<open>normpath\<close>,
  as Python 2.7's \<open>posixpath\<close> computes them on the text of a path.\<close>

definition path_join :: "string \<Rightarrow> string \<Rightarrow> string" where
  "path_join a b =
     (if startswith b ''/'' then b
      else if a = [] \<or> endswith a ''/'' then a @ b
      else a @ ''/'' @ b)"

definition basename :: "string \<Rightarrow> string" where
  "basename p = rev (takeWhile (\<lambda>c. c \<noteq> slash) (rev p))"

definition dirname :: "string \<Rightarrow> string" where
  "dirname p =
     (let head = rev (dropWhile (\<lambda>c. c \<noteq> slash) (rev p))
      in if head \<noteq> [] \<and> filter (\<lambda>c. c \<noteq> slash) head \<noteq> [] then rstrip ''/'' head
         else head)"

definition isabs :: "string \<Rightarrow> bool" where
  "isabs p = startswith p ''/''"

definition norm_step :: "nat \<Rightarrow> string list \<Rightarrow> string \<Rightarrow> string list" where
  "norm_step initial_slashes new_comps part =
     (if part = [] \<or> part = ''.'' then new_comps
      else if part \<noteq> ''..'' \<or> (initial_slashes = 0 \<and> new_comps = [])
              \<or> (new_comps \<noteq> [] \<and> last new_comps = ''..'')
        then new_comps @ [part]
      else if new_comps \<noteq> [] then butlast new_comps
      else new_comps)"

definition normpath :: "string \<Rightarrow> string" where
  "normpath path =
     (if path = [] then ''.''
      else
        let initial_slashes =
              (if startswith path ''/''
               then (if startswith path ''//'' \<and> \<not> startswith path ''///'' then 2 else 1)
               else 0);
            comps = foldl (norm_step initial_slashes) [] (split_on slash [] path);
            p = replicate initial_slashes slash @ join_with ''/'' comps
        in if p = [] then ''.'' else p)"

text \<open>The part of \<open>os.path.abspath\<close> and \<open>os.path.relpath\<close> after \<open>os.getcwd()\<close>
  has answered \<open>wd\<close>.\<close>

definition abspath_from :: "string \<Rightarrow> string \<Rightarrow> string" where
  "abspath_from wd p = normpath (if isabs p then p else path_join wd p)"

fun common_prefix_len :: "string list \<Rightarrow> string list \<Rightarrow> nat" where
  "common_prefix_len (x # xs) (y # ys) = (if x = y then Suc (common_prefix_len xs ys) else 0)"
| "common_prefix_len xs ys = 0"

definition relpath_from :: "string \<Rightarrow> string \<Rightarrow> string \<Rightarrow> string" where
  "relpath_from wd p start =
     (let start_list = filter (\<lambda>x. x \<noteq> []) (split_on slash [] (abspath_from wd start));
          path_list = filter (\<lambda>x. x \<noteq> []) (split_on slash [] (abspath_from wd p));
          i = common_prefix_len start_list path_list;
          rel_list = replicate (length start_list - i) ''..'' @ drop i path_list
      in case rel_list of [] \<Rightarrow> ''.'' | r # rs \<Rightarrow> foldl path_join r rs)"

section \<open>The file system\<close>

text \<open>
  The file system is a tree: a regular file with its bytes, a symbolic link with its
  target text, or a directory with its entries in the order \<open>os.listdir\<close> gives them.
  Permission bits, owners and times are not modelled.
\<close>

datatype node = File string | Link string | Dir "(string \<times> node) list"

datatype kind = KFile | KLink string | KDir

fun kind_of :: "node \<Rightarrow> kind" where
  "kind_of (File s) = KFile"
| "kind_of (Link t) = KLink t"
| "kind_of (Dir es) = KDir"

text \<open>A location is the list of names from the root to a node, through directories
  only (no symbolic link on the way).\<close>

fun lookup :: "node \<Rightarrow> string list \<Rightarrow> node option" where
  "lookup n [] = Some n"
| "lookup (Dir es) (c # cs) = (case map_of es c of None \<Rightarrow> None | Some n \<Rightarrow> lookup n cs)"
| "lookup n (c # cs) = None"

definition kind_at :: "node \<Rightarrow> string list \<Rightarrow> kind option" where
  "kind_at r loc = map_option kind_of (lookup r loc)"

text \<open>\<open>update loc (Some n) r\<close> puts \<open>n\<close> at \<open>loc\<close> (a new entry goes last in its
  directory); \<open>update loc None r\<close> removes the entry at \<open>loc\<close>.\<close>

definition set_entry :: "string \<Rightarrow> node option \<Rightarrow> (string \<times> node) list \<Rightarrow> (string \<times> node) list" where
  "set_entry c v es =
     (case v of
        None \<Rightarrow> filter (\<lambda>e. fst e \<noteq> c) es
      | Some n \<Rightarrow>
          (if c \<in> fst ` set es then map (\<lambda>e. if fst e = c then (c, n) else e) es
           else es @ [(c, n)]))"

fun update :: "string list \<Rightarrow> node option \<Rightarrow> node \<Rightarrow> node" where
  "update [] v n = (case v of None \<Rightarrow> n | Some n' \<Rightarrow> n')"
| "update (c # cs) v (Dir es) =
     (if cs = [] then Dir (set_entry c v es)
      else Dir (map (\<lambda>e. if fst e = c then (c, update cs v (snd e)) else e) es))"
| "update (c # cs) v (File s) = File s"
| "update (c # cs) v (Link t) = Link t"

text \<open>
  Path resolution, as the kernel does it: from the directory at \<open>cur\<close>, one component
  at a time; an empty component and \<open>.\<close> stay, \<open>..\<close> goes to the parent (the root is
  its own parent), a symbolic link is replaced by its target. \<open>follow\<close> says whether a
  link in the last component is followed, \<open>create\<close> whether the last component may be
  missing (then the answer is where it would be made). At most \<open>fuel\<close> links are
  followed (Linux stops at 40 with ELOOP). The answer is a location, or \<open>None\<close> when
  the path does not resolve.
\<close>

definition link_base :: "string \<Rightarrow> string list \<Rightarrow> string list" where
  "link_base t cur = (if isabs t then [] else cur)"

fun resolve :: "nat \<Rightarrow> bool \<Rightarrow> bool \<Rightarrow> node \<Rightarrow> string list \<Rightarrow> string list \<Rightarrow> string list option" where
  "resolve fuel follow create r cur [] = Some cur"
| "resolve fuel follow create r cur (c # cs) =
     (if c = [] \<or> c = ''.'' then resolve fuel follow create r cur cs
      else if c = ''..'' then resolve fuel follow create r (butlast cur) cs
      else
        (case kind_at r (cur @ [c]) of
           None \<Rightarrow> (if create \<and> cs = [] then Some (cur @ [c]) else None)
         | Some KFile \<Rightarrow> (if cs = [] then Some (cur @ [c]) else None)
         | Some KDir \<Rightarrow> resolve fuel follow create r (cur @ [c]) cs
         | Some (KLink t) \<Rightarrow>
             (if \<not> follow \<and> cs = [] then Some (cur @ [c])
              else
                (case fuel of
                   0 \<Rightarrow> None
                 | Suc f \<Rightarrow>
                     (if t = [] then None
                      else resolve f follow create r (link_base t cur)
                             (split_on slash [] t @ cs))))))"

section \<open>The process and its world\<close>

text \<open>
  What the program can see and change: the file system, the working directory of the
  process (a location), the messages it logged and printed, and the commands it ran.
\<close>

datatype logentry = Status string | ErrorMsg string | Printed string

record world =
  root :: node
  cwd :: "string list"
  log :: "logentry list"
  calls :: "string list list"

text \<open>The command a \<open>CalledProcessError\<close> carries, as it was given to the constructor:
  a string, or the argument list.\<close>

datatype pycmd = CmdStr string | CmdList "string list"

text \<open>Modelled from the spec: \<open>common.Error\<close> is not under src/; the spec has it as the
  system's designated error type, a kind of its own that carries a message, and that
  is the constructor \<open>Error\<close>. The others are Python's: \<open>IOError\<close>, \<open>OSError\<close> and
  \<open>ShutilError\<close> (\<open>shutil.Error\<close>) are the \<open>EnvironmentError\<close>s,
  \<open>CalledProcessError\<close> carries the exit status and the command, and \<open>OtherExn\<close> is
  any other exception a collaborator raises.\<close>

datatype exn =
    Error string
  | CalledProcessError int pycmd
  | IOError string
  | OSError string
  | ShutilError string
  | ValueError string
  | AssertionError
  | OtherExn string

fun is_Error :: "exn \<Rightarrow> bool" where
  "is_Error (Error m) = True"
| "is_Error e = False"

fun is_EnvironmentError :: "exn \<Rightarrow> bool" where
  "is_EnvironmentError (IOError m) = True"
| "is_EnvironmentError (OSError m) = True"
| "is_EnvironmentError (ShutilError m) = True"
| "is_EnvironmentError e = False"

text \<open>\<open>str(err)\<close> of an exception.\<close>

fun str_exn :: "exn \<Rightarrow> string" where
  "str_exn (Error m) = m"
| "str_exn (CalledProcessError rc (CmdStr c)) =
     ''Command '' @ repr c @ '' returned non-zero exit status '' @ str_int rc"
| "str_exn (CalledProcessError rc (CmdList c)) =
     ''Command '' @ repr_list c @ '' returned non-zero exit status '' @ str_int rc"
| "str_exn (IOError m) = m"
| "str_exn (OSError m) = m"
| "str_exn (ShutilError m) = m"
| "str_exn (ValueError m) = m"
| "str_exn AssertionError = []"
| "str_exn (OtherExn m) = m"

text \<open>A statement runs in a world and ends with a value or an exception, in the world
  it has made by then: an exception keeps every effect that came before it.\<close>

type_synonym 'a io = "world \<Rightarrow> (exn + 'a) \<times> world"

definition io_return :: "'a \<Rightarrow> 'a io" where
  "io_return x = (\<lambda>w. (Inr x, w))"

definition io_raise :: "exn \<Rightarrow> 'a io" where
  "io_raise e = (\<lambda>w. (Inl e, w))"

definition io_bind :: "'a io \<Rightarrow> ('a \<Rightarrow> 'b io) \<Rightarrow> 'b io" where
  "io_bind m f = (\<lambda>w. case m w of (Inl e, w') \<Rightarrow> (Inl e, w') | (Inr x, w') \<Rightarrow> f x w')"

definition io_then :: "'a io \<Rightarrow> 'b io \<Rightarrow> 'b io" where
  "io_then m n = io_bind m (\<lambda>_. n)"

text \<open>\<open>for x in xs: body\<close>.\<close>

fun foreach :: "'a list \<Rightarrow> ('a \<Rightarrow> unit io) \<Rightarrow> unit io" where
  "foreach [] body = io_return ()"
| "foreach (x # xs) body = io_then (body x) (foreach xs body)"

text \<open>\<open>try: body finally: fin\<close>: \<open>fin\<close> runs whatever \<open>body\<close> did; an exception of
  \<open>fin\<close> replaces the outcome of \<open>body\<close>.\<close>

definition try_finally :: "'a io \<Rightarrow> unit io \<Rightarrow> 'a io" where
  "try_finally body fin =
     (\<lambda>w. case body w of
            (r, w') \<Rightarrow> (case fin w' of (Inl e, w'') \<Rightarrow> (Inl e, w'') | (Inr u, w'') \<Rightarrow> (r, w'')))"

text \<open>\<open>try: body except K as err: handler(err)\<close>, where \<open>is_K\<close> tells the exceptions
  of kind \<open>K\<close>.\<close>

definition try_except :: "'a io \<Rightarrow> (exn \<Rightarrow> bool) \<Rightarrow> (exn \<Rightarrow> 'a io) \<Rightarrow> 'a io" where
  "try_except body is_K handler =
     (\<lambda>w. case body w of
            (Inl e, w') \<Rightarrow> (if is_K e then handler e w' else (Inl e, w'))
          | (Inr x, w') \<Rightarrow> (Inr x, w'))"

section \<open>System calls\<close>

text \<open>A path is resolved from the root when it is absolute, from the working
  directory otherwise (which must still be a directory); the empty path names
  nothing.\<close>

definition locate :: "bool \<Rightarrow> bool \<Rightarrow> world \<Rightarrow> string \<Rightarrow> string list option" where
  "locate follow create w p =
     (if p = [] then None
      else if isabs p then resolve 40 follow create (root w) [] (split_on slash [] p)
      else if kind_at (root w) (cwd w) = Some KDir
        then resolve 40 follow create (root w) (cwd w) (split_on slash [] p)
      else None)"

text \<open>A new entry can be made at a location whose parent is a directory.\<close>

definition parent_is_dir :: "node \<Rightarrow> string list \<Rightarrow> bool" where
  "parent_is_dir r loc = (loc \<noteq> [] \<and> kind_at r (butlast loc) = Some KDir)"

text \<open>\<open>os.stat\<close> follows a link in the last component, \<open>os.lstat\<close> does not.\<close>

definition stat_kind :: "world \<Rightarrow> string \<Rightarrow> kind option" where
  "stat_kind w p =
     (case locate True False w p of None \<Rightarrow> None | Some loc \<Rightarrow> kind_at (root w) loc)"

definition lstat_kind :: "world \<Rightarrow> string \<Rightarrow> kind option" where
  "lstat_kind w p =
     (case locate False False w p of None \<Rightarrow> None | Some loc \<Rightarrow> kind_at (root w) loc)"

definition isdir :: "world \<Rightarrow> string \<Rightarrow> bool" where
  "isdir w p = (stat_kind w p = Some KDir)"

definition isfile :: "world \<Rightarrow> string \<Rightarrow> bool" where
  "isfile w p = (stat_kind w p = Some KFile)"

definition exists :: "world \<Rightarrow> string \<Rightarrow> bool" where
  "exists w p = (stat_kind w p \<noteq> None)"

definition islink :: "world \<Rightarrow> string \<Rightarrow> bool" where
  "islink w p = (case lstat_kind w p of Some (KLink t) \<Rightarrow> True | _ \<Rightarrow> False)"

text \<open>\<open>open(p).read()\<close>, and \<open>open(p, 'w')\<close> or \<open>open(p, 'a')\<close> followed by the
  writes and the close.\<close>

definition read_file :: "string \<Rightarrow> string io" where
  "read_file p w =
     (case locate True False w p of
        None \<Rightarrow> (Inl (IOError (''No such file or directory: '' @ repr p)), w)
      | Some loc \<Rightarrow>
          (case lookup (root w) loc of
             Some (File s) \<Rightarrow> (Inr s, w)
           | _ \<Rightarrow> (Inl (IOError (''Is a directory: '' @ repr p)), w)))"

definition write_file :: "string \<Rightarrow> string \<Rightarrow> unit io" where
  "write_file p s w =
     (case locate True True w p of
        None \<Rightarrow> (Inl (IOError (''No such file or directory: '' @ repr p)), w)
      | Some loc \<Rightarrow>
          (case kind_at (root w) loc of
             Some KDir \<Rightarrow> (Inl (IOError (''Is a directory: '' @ repr p)), w)
           | Some (KLink t) \<Rightarrow> (Inl (IOError (''Too many levels of symbolic links: '' @ repr p)), w)
           | Some KFile \<Rightarrow> (Inr (), w\<lparr>root := update loc (Some (File s)) (root w)\<rparr>)
           | None \<Rightarrow>
               (if parent_is_dir (root w) loc
                then (Inr (), w\<lparr>root := update loc (Some (File s)) (root w)\<rparr>)
                else (Inl (IOError (''No such file or directory: '' @ repr p)), w))))"

definition append_file :: "string \<Rightarrow> string \<Rightarrow> unit io" where
  "append_file p s w =
     (case locate True True w p of
        None \<Rightarrow> (Inl (IOError (''No such file or directory: '' @ repr p)), w)
      | Some loc \<Rightarrow>
          (case lookup (root w) loc of
             Some (Dir es) \<Rightarrow> (Inl (IOError (''Is a directory: '' @ repr p)), w)
           | Some (Link t) \<Rightarrow> (Inl (IOError (''Too many levels of symbolic links: '' @ repr p)), w)
           | Some (File old) \<Rightarrow> (Inr (), w\<lparr>root := update loc (Some (File (old @ s))) (root w)\<rparr>)
           | None \<Rightarrow>
               (if parent_is_dir (root w) loc
                then (Inr (), w\<lparr>root := update loc (Some (File s)) (root w)\<rparr>)
                else (Inl (IOError (''No such file or directory: '' @ repr p)), w))))"

definition readlink :: "string \<Rightarrow> string io" where
  "readlink p w =
     (case lstat_kind w p of
        Some (KLink t) \<Rightarrow> (Inr t, w)
      | Some k \<Rightarrow> (Inl (OSError (''Invalid argument: '' @ repr p)), w)
      | None \<Rightarrow> (Inl (OSError (''No such file or directory: '' @ repr p)), w))"

definition unlink :: "string \<Rightarrow> unit io" where
  "unlink p w =
     (case locate False False w p of
        None \<Rightarrow> (Inl (OSError (''No such file or directory: '' @ repr p)), w)
      | Some loc \<Rightarrow>
          (case kind_at (root w) loc of
             Some KDir \<Rightarrow> (Inl (OSError (''Is a directory: '' @ repr p)), w)
           | None \<Rightarrow> (Inl (OSError (''No such file or directory: '' @ repr p)), w)
           | _ \<Rightarrow> (Inr (), w\<lparr>root := update loc None (root w)\<rparr>)))"

definition symlink :: "string \<Rightarrow> string \<Rightarrow> unit io" where
  "symlink target p w =
     (case locate False True w p of
        None \<Rightarrow> (Inl (OSError (''No such file or directory: '' @ repr p)), w)
      | Some loc \<Rightarrow>
          (case kind_at (root w) loc of
             None \<Rightarrow>
               (if parent_is_dir (root w) loc
                then (Inr (), w\<lparr>root := update loc (Some (Link target)) (root w)\<rparr>)
                else (Inl (OSError (''No such file or directory: '' @ repr p)), w))
           | Some k \<Rightarrow> (Inl (OSError (''File exists: '' @ repr p)), w)))"

definition chmod :: "string \<Rightarrow> unit io" where
  "chmod p w =
     (if exists w p then (Inr (), w)
      else (Inl (OSError (''No such file or directory: '' @ repr p)), w))"

text \<open>\<open>os.getcwd()\<close> answers the text of the working directory, when it is still a
  directory; \<open>os.chdir(p)\<close> moves to the directory \<open>p\<close> resolves to.\<close>

definition cwd_text :: "string list \<Rightarrow> string" where
  "cwd_text loc = ''/'' @ join_with ''/'' loc"

definition getcwd :: "string io" where
  "getcwd w =
     (if kind_at (root w) (cwd w) = Some KDir then (Inr (cwd_text (cwd w)), w)
      else (Inl (OSError ''No such file or directory''), w))"

definition chdir :: "string \<Rightarrow> unit io" where
  "chdir p w =
     (case locate True False w p of
        None \<Rightarrow> (Inl (OSError (''No such file or directory: '' @ repr p)), w)
      | Some loc \<Rightarrow>
          (if kind_at (root w) loc = Some KDir then (Inr (), w\<lparr>cwd := loc\<rparr>)
           else (Inl (OSError (''Not a directory: '' @ repr p)), w)))"

text \<open>\<open>os.path.abspath(p)\<close> asks for the working directory only when \<open>p\<close> is
  relative; \<open>os.path.relpath(p, start)\<close> makes both absolute first and refuses the
  empty path.\<close>

definition abspath :: "string \<Rightarrow> string io" where
  "abspath p =
     (if isabs p then io_return (normpath p)
      else io_bind getcwd (\<lambda>wd. io_return (normpath (path_join wd p))))"

definition relpath :: "string \<Rightarrow> string \<Rightarrow> string io" where
  "relpath p start =
     (if p = [] then io_raise (ValueError ''no path specified'')
      else
        io_bind (abspath start) (\<lambda>start_abs.
        io_bind (abspath p) (\<lambda>p_abs.
        io_return (relpath_from ''/'' p_abs start_abs))))"

text \<open>\<open>shutil.copyfile\<close>, \<open>shutil.copy\<close> and \<open>shutil.rmtree\<close> of Python 2.7.
  \<open>copyfile\<close> refuses to copy a file onto itself; \<open>copy\<close> copies into a directory
  under the source's name, and then the permission bits (not modelled); \<open>rmtree\<close>
  refuses a symbolic link and removes a directory with all it holds.\<close>

definition copyfile :: "string \<Rightarrow> string \<Rightarrow> unit io" where
  "copyfile src dst w =
     (if locate True False w src \<noteq> None \<and> locate True False w src = locate True False w dst
      then (Inl (ShutilError (repr src @ '' and '' @ repr dst @ '' are the same file'')), w)
      else io_bind (read_file src) (\<lambda>s. write_file dst s) w)"

definition copy :: "string \<Rightarrow> string \<Rightarrow> unit io" where
  "copy src dst w =
     (let dst' = (if isdir w dst then path_join dst (basename src) else dst)
      in copyfile src dst' w)"

definition rmtree :: "string \<Rightarrow> unit io" where
  "rmtree p w =
     (case locate False False w p of
        None \<Rightarrow> (Inl (OSError (''No such file or directory: '' @ repr p)), w)
      | Some loc \<Rightarrow>
          (case kind_at (root w) loc of
             Some KDir \<Rightarrow>
               (if loc = [] then (Inl (OSError (''Device or resource busy: '' @ repr p)), w)
                else (Inr (), w\<lparr>root := update loc None (root w)\<rparr>))
           | Some (KLink t) \<Rightarrow> (Inl (OSError ''Cannot call rmtree on a symbolic link''), w)
           | _ \<Rightarrow> (Inl (OSError (''Not a directory: '' @ repr p)), w)))"

section \<open>Collaborators\<close>

text \<open>
  What the program calls and does not define is a parameter of the model:
  \<^item> \<open>exec argv wd fs\<close>: the program \<open>argv\<close> run as a child process in the working
    directory \<open>wd\<close> on the file system \<open>fs\<close>: its exit status, its standard output
    and the file system it leaves, or \<open>None\<close> when it cannot be started. A child
    cannot change the working directory of its parent.
  \<^item> \<open>glob pattern wd fs\<close>: the paths \<open>glob.glob\<close> answers.
  \<^item> \<open>yum_install\<close>: the block of \<open>install_packages\<close> that mounts \<open>/proc\<close> and has
    \<open>yumconf.YumInstaller\<close> install the packages; \<open>safe_makedirs\<close> of \<open>common\<close>;
    \<open>write_setup_in_files\<close> of \<open>envsetup\<close>. Each answers the exception it raised,
    if any, and the file system it leaves.
  \<^item> \<open>mkdtemp\<close>: \<open>tempfile.mkdtemp()\<close>, the path of the directory it made.
\<close>

record env =
  exec :: "string list \<Rightarrow> string list \<Rightarrow> node \<Rightarrow> (int \<times> string \<times> node) option"
  glob :: "string \<Rightarrow> string list \<Rightarrow> node \<Rightarrow> string list"
  yum_install :: "string \<Rightarrow> string list \<Rightarrow> string \<Rightarrow> string \<Rightarrow> string \<Rightarrow> string list option
                   \<Rightarrow> string list \<Rightarrow> node \<Rightarrow> exn option \<times> node"
  safe_makedirs :: "string \<Rightarrow> string list \<Rightarrow> node \<Rightarrow> exn option \<times> node"
  write_setup_in_files :: "string \<Rightarrow> string \<Rightarrow> string \<Rightarrow> string list \<Rightarrow> node \<Rightarrow> exn option \<times> node"
  mkdtemp :: "string list \<Rightarrow> node \<Rightarrow> (exn + string) \<times> node"

text \<open>A collaborator that works on the file system, as a statement.\<close>

definition collaborator :: "(string list \<Rightarrow> node \<Rightarrow> exn option \<times> node) \<Rightarrow> unit io" where
  "collaborator f w =
     (case f (cwd w) (root w) of
        (None, fs) \<Rightarrow> (Inr (), w\<lparr>root := fs\<rparr>)
      | (Some e, fs) \<Rightarrow> (Inl e, w\<lparr>root := fs\<rparr>))"

definition run_mkdtemp :: "env \<Rightarrow> string io" where
  "run_mkdtemp E w = (case mkdtemp E (cwd w) (root w) of (r, fs) \<Rightarrow> (r, w\<lparr>root := fs\<rparr>))"

text \<open>\<open>subprocess.Popen(argv, stdout=PIPE).communicate()\<close> with the return code,
  \<open>subprocess.call(argv)\<close> and \<open>subprocess.check_call(argv)\<close>. Every command that
  is started is recorded in \<open>calls\<close>.\<close>

definition popen :: "env \<Rightarrow> string list \<Rightarrow> (int \<times> string) io" where
  "popen E argv w =
     (case exec E argv (cwd w) (root w) of
        None \<Rightarrow> (Inl (OSError (''cannot execute '' @ repr (hd argv))), w)
      | Some (rc, out, fs) \<Rightarrow> (Inr (rc, out), w\<lparr>root := fs, calls := calls w @ [argv]\<rparr>))"

definition call :: "env \<Rightarrow> string list \<Rightarrow> int io" where
  "call E argv = io_bind (popen E argv) (\<lambda>r. io_return (fst r))"

definition check_call :: "env \<Rightarrow> string list \<Rightarrow> unit io" where
  "check_call E argv =
     io_bind (call E argv) (\<lambda>rc.
       if rc \<noteq> 0 then io_raise (CalledProcessError rc (CmdList argv)) else io_return ())"

text \<open>Modelled from the spec: \<open>common.statusmsg\<close> and \<open>common.errormsg\<close> are not
  under src/; the spec has each step log a status message and the top level log the
  error, so each appends its message to the log. \<open>print\<close> appends what it prints.\<close>

definition statusmsg :: "string \<Rightarrow> unit io" where
  "statusmsg m w = (Inr (), w\<lparr>log := log w @ [Status m]\<rparr>)"

definition errormsg :: "string \<Rightarrow> unit io" where
  "errormsg m w = (Inr (), w\<lparr>log := log w @ [ErrorMsg m]\<rparr>)"

definition print :: "string \<Rightarrow> unit io" where
  "print m w = (Inr (), w\<lparr>log := log w @ [Printed m]\<rparr>)"

section \<open>stage2.py\<close>

text \<open>An argument that the program accepts as one string or as a list of strings.\<close>

datatype strs = Str string | StrList "string list"

fun repr_strs :: "strs \<Rightarrow> string" where
  "repr_strs (Str s) = repr s"
| "repr_strs (StrList xs) = repr_list xs"

text \<open>\<open>if isinstance(x, str): x = [x]\<close>.\<close>

fun as_list :: "strs \<Rightarrow> string list" where
  "as_list (Str s) = [s]"
| "as_list (StrList xs) = xs"

subsection \<open>package_installed, get_stage1_rpmlist\<close>

definition package_installed :: "env \<Rightarrow> string \<Rightarrow> string \<Rightarrow> bool io" where
  "package_installed E stage_dir_abs pkg =
     io_bind (call E [''rpm'', ''--root'', stage_dir_abs, ''-q'', pkg]) (\<lambda>rc. io_return (rc = 0))"

definition get_stage1_rpmlist :: "string \<Rightarrow> string list io" where
  "get_stage1_rpmlist stage_dir_abs =
     io_bind (read_file (path_join stage_dir_abs ''stage1_rpmlist'')) (\<lambda>s.
       io_return (split (strip s)))"

subsection \<open>write_package_list_file\<close>

text \<open>\<open>exclude_list = exclude_list or []\<close>, then the \<open>isinstance\<close> test: \<open>None\<close>, the
  empty string and the empty list all become the empty list.\<close>

fun exclude_list_arg :: "strs option \<Rightarrow> string list" where
  "exclude_list_arg None = []"
| "exclude_list_arg (Some (Str s)) = (if s = [] then [] else [s])"
| "exclude_list_arg (Some (StrList xs)) = xs"

definition rpm_qa_cmd :: "string \<Rightarrow> string list" where
  "rpm_qa_cmd stage_dir_abs = [''rpm'', ''--root'', stage_dir_abs, ''-qa'']"

definition write_package_list_file :: "env \<Rightarrow> string \<Rightarrow> strs option \<Rightarrow> unit io" where
  "write_package_list_file E stage_dir_abs exclude_list =
     io_bind (popen E (rpm_qa_cmd stage_dir_abs)) (\<lambda>(retcode, output).
       if retcode \<noteq> 0
       then io_raise (CalledProcessError retcode (CmdStr (join_with '' '' (rpm_qa_cmd stage_dir_abs))))
       else
         (let package_set = set (split (strip output));
              exclude_set = set (exclude_list_arg exclude_list)
          in write_file (path_join stage_dir_abs ''osg/rpm-versions.txt'')
               (join_with [nl] (sorted_list_of_set (package_set - exclude_set)) @ [nl])))"

subsection \<open>install_packages\<close>

definition install_packages ::
  "env \<Rightarrow> string \<Rightarrow> strs \<Rightarrow> string \<Rightarrow> string \<Rightarrow> string \<Rightarrow> string list option \<Rightarrow> unit io" where
  "install_packages E stage_dir_abs packages repofile dver basearch extra_repos =
     io_then
       (collaborator (yum_install E stage_dir_abs (as_list packages) repofile dver basearch extra_repos))
       (foreach (as_list packages) (\<lambda>pkg.
          if startswith pkg ''@'' then io_return ()
          else io_bind (package_installed E stage_dir_abs pkg) (\<lambda>ok.
                 if \<not> ok then io_raise (Error (repr pkg @ '' not installed after yum install''))
                 else io_return ())))"

subsection \<open>patch_installed_packages\<close>

text \<open>\<open>cmp(a, b)\<close> on strings, and \<open>xs.sort(cmp=f)\<close>: Python's sort is stable, so
  an element goes before the elements after it in the list that do not compare
  smaller.\<close>

definition cmp :: "string \<Rightarrow> string \<Rightarrow> int" where
  "cmp a b = (if a < b then - 1 else if a = b then 0 else 1)"

definition cmp_basename :: "string \<Rightarrow> string \<Rightarrow> int" where
  "cmp_basename left right = cmp (basename left) (basename right)"

fun insort_cmp :: "('a \<Rightarrow> 'a \<Rightarrow> int) \<Rightarrow> 'a \<Rightarrow> 'a list \<Rightarrow> 'a list" where
  "insort_cmp f x [] = [x]"
| "insort_cmp f x (y # ys) = (if f x y \<le> 0 then x # y # ys else y # insort_cmp f x ys)"

definition sort_cmp :: "('a \<Rightarrow> 'a \<Rightarrow> int) \<Rightarrow> 'a list \<Rightarrow> 'a list" where
  "sort_cmp f xs = foldr (insort_cmp f) xs []"

text \<open>The list comprehension \<open>[os.path.abspath(x) for x in xs]\<close>.\<close>

fun abspath_each :: "string list \<Rightarrow> string list io" where
  "abspath_each [] = io_return []"
| "abspath_each (x # xs) =
     io_bind (abspath x) (\<lambda>y. io_bind (abspath_each xs) (\<lambda>ys. io_return (y # ys)))"

definition patch_cmd :: "string \<Rightarrow> string list" where
  "patch_cmd patch_file = [''patch'', ''-p1'', ''--force'', ''--input'', patch_file]"

definition apply_patch :: "env \<Rightarrow> string \<Rightarrow> unit io" where
  "apply_patch E patch_file =
     io_then (statusmsg (''Applying patch '' @ repr patch_file))
       (io_bind (call E (patch_cmd patch_file)) (\<lambda>err.
          if err \<noteq> 0 then io_raise (Error (''patch file '' @ repr patch_file @ '' failed to apply''))
          else io_return ()))"

definition collect_patches :: "env \<Rightarrow> string list \<Rightarrow> world \<Rightarrow> string list" where
  "collect_patches E patch_dirs_abs w =
     concat (map (\<lambda>patch_dir_abs. glob E (path_join patch_dir_abs ''*.patch'') (cwd w) (root w))
               patch_dirs_abs)"

definition patch_installed_packages :: "env \<Rightarrow> string \<Rightarrow> string list \<Rightarrow> string \<Rightarrow> unit io" where
  "patch_installed_packages E stage_dir_abs patch_dirs dver =
     io_bind (abspath_each patch_dirs) (\<lambda>patch_dirs_abs.
     io_bind getcwd (\<lambda>oldwd.
       try_finally
         (io_then (chdir stage_dir_abs)
            (\<lambda>w. foreach (sort_cmp cmp_basename (collect_patches E patch_dirs_abs w))
                    (apply_patch E) w))
         (chdir oldwd)))"

subsection \<open>fix_osg_version\<close>

text \<open>\<open>re.match(r'[0-9.]+', s)\<close> succeeds when \<open>s\<close> starts with a digit or a dot.
  \<open>re.sub(r'^([0-9.]+)(?!-tarball)', r'\1-tarball' + relnum, s)\<close> looks for a match at
  the start of \<open>s\<close> only: the longest run of digits and dots, cut back one character
  at a time while \<open>-tarball\<close> follows it, and never to nothing; when there is one, the
  replacement goes in right after it.\<close>

definition is_verchar :: "char \<Rightarrow> bool" where
  "is_verchar c = (c \<in> set ''0123456789.'')"

definition re_match_version :: "string \<Rightarrow> bool" where
  "re_match_version s = (takeWhile is_verchar s \<noteq> [])"

fun backtrack :: "nat \<Rightarrow> string \<Rightarrow> nat option" where
  "backtrack 0 s = None"
| "backtrack (Suc k) s =
     (if \<not> startswith (drop (Suc k) s) ''-tarball'' then Some (Suc k) else backtrack k s)"

definition re_sub_version :: "string \<Rightarrow> string \<Rightarrow> string" where
  "re_sub_version suffix s =
     (case backtrack (length (takeWhile is_verchar s)) s of
        None \<Rightarrow> s
      | Some k \<Rightarrow> take k s @ ''-tarball'' @ suffix @ drop k s)"

text \<open>\<open>relnum\<close> is the release number the top level passes on (0 by default); the
  default \<open>""\<close> of \<open>fix_osg_version\<close> itself is as false as 0. \<open>relnum_suffix\<close>
  is the variable \<open>_relnum\<close>, and \<open>new_version_str\<close> the variable of that name as
  the two branches on \<open>'tarball' in version_str\<close> set it.\<close>

definition relnum_suffix :: "int \<Rightarrow> string" where
  "relnum_suffix relnum = (if relnum \<noteq> 0 then ''-'' @ str_int relnum else [])"

definition new_version_str :: "int \<Rightarrow> string \<Rightarrow> string" where
  "new_version_str relnum version_str =
     (if contains version_str ''tarball'' then version_str
      else re_sub_version (relnum_suffix relnum) version_str)"

definition osg_version_path :: "string \<Rightarrow> string" where
  "osg_version_path stage_dir_abs = path_join stage_dir_abs ''etc/osg-version''"

definition fix_osg_version :: "string \<Rightarrow> int \<Rightarrow> unit io" where
  "fix_osg_version stage_dir_abs relnum =
     io_bind (read_file (osg_version_path stage_dir_abs)) (\<lambda>content.
       let version_str = readline content in
       if version_str = []
         then io_raise (Error (''Could not read version string from ''
                                 @ repr (osg_version_path stage_dir_abs)))
       else if \<not> re_match_version version_str
         then io_raise (Error (repr (osg_version_path stage_dir_abs) @ '' does not contain version''))
       else write_file (osg_version_path stage_dir_abs) (new_version_str relnum version_str))"

subsection \<open>fix_gsissh_config_dir, copy_osg_post_scripts\<close>

text \<open>\<open>except EnvironmentError as err: raise Error(msg % str(err))\<close>.\<close>

definition wrap_environment_error :: "unit io \<Rightarrow> (string \<Rightarrow> string) \<Rightarrow> unit io" where
  "wrap_environment_error body msg =
     try_except body is_EnvironmentError (\<lambda>err. io_raise (Error (msg (str_exn err))))"

definition fix_gsissh_config_dir :: "env \<Rightarrow> string \<Rightarrow> unit io" where
  "fix_gsissh_config_dir E stage_dir_abs w =
     (if \<not> isdir w (path_join stage_dir_abs ''etc/gsissh'') then (Inr (), w)
      else
        wrap_environment_error
          (let usr_etc = path_join stage_dir_abs ''usr/etc''
           in io_then (collaborator (safe_makedirs E usr_etc))
                (symlink ''../../etc/gsissh'' (path_join usr_etc ''ssh'')))
          (\<lambda>m. ''unable to fix gsissh config dir: '' @ m) w)"

definition copy_osg_post_scripts :: "env \<Rightarrow> string \<Rightarrow> string \<Rightarrow> string \<Rightarrow> string \<Rightarrow> unit io" where
  "copy_osg_post_scripts E stage_dir_abs post_scripts_dir dver basearch w =
     (if \<not> isdir w post_scripts_dir
      then (Inl (Error (''script directory ('' @ repr post_scripts_dir @ '') not found'')), w)
      else
        io_bind (abspath post_scripts_dir) (\<lambda>post_scripts_dir_abs.
          let dest_dir = path_join stage_dir_abs ''osg'' in
          io_then (collaborator (safe_makedirs E dest_dir))
         (io_then
            (foreach [''osg-post-install'', ''osgrun.in''] (\<lambda>script_name.
               let script_path = path_join post_scripts_dir_abs script_name;
                   dest_path = path_join dest_dir script_name
               in wrap_environment_error
                    (io_then (copyfile script_path dest_path) (chmod dest_path))
                    (\<lambda>m. ''unable to copy script ('' @ repr script_path @ '') to (''
                            @ repr dest_dir @ ''): '' @ m)))
            (wrap_environment_error
               (collaborator (write_setup_in_files E dest_dir dver basearch))
               (\<lambda>m. ''unable to create environment script templates (setup.csh.in, setup.sh.in): ''
                       @ m)))) w)"

subsection \<open>_write_exclude_list, tar_stage_dir\<close>

text \<open>The input file is opened, the output file is opened for writing (which empties
  it), and only then are the lines read and written; the extra excludes are appended
  after the file was closed.\<close>

definition write_exclude_list :: "string \<Rightarrow> string \<Rightarrow> string \<Rightarrow> string list \<Rightarrow> unit io" where
  "write_exclude_list stage1_filelist_path exclude_list_path prepend_dir extra_excludes =
     (if stage1_filelist_path = exclude_list_path then io_raise AssertionError
      else
        io_then (read_file stage1_filelist_path)
       (io_then (write_file exclude_list_path [])
       (io_bind (read_file stage1_filelist_path) (\<lambda>content.
        io_then
          (write_file exclude_list_path
             (concat (map (\<lambda>line. path_join prepend_dir (lstrip ''./'' line))
                        (file_lines [] content))))
          (if extra_excludes \<noteq> []
           then append_file exclude_list_path
                  (concat (map (\<lambda>excl. path_join prepend_dir excl @ [nl]) extra_excludes))
           else io_return ())))))"

definition excludes :: "string list" where
  "excludes =
     [''var/log/yum.log'', ''tmp/*'', ''var/cache/yum/*'', ''var/lib/rpm/*'', ''var/lib/yum/*'',
      ''var/tmp/*'', ''dev/*'', ''proc/*'', ''etc/rc.d/rc?.d'', ''etc/alternatives'',
      ''var/lib/alternatives'', ''usr/bin/[[]'', ''usr/share/man/man1/[[].1.gz'', ''bin/dbus*'',
      ''lib/libcap*'', ''lib/dbus*'', ''lib/security/pam*.so'', ''lib64/libcap*'', ''lib64/dbus*'',
      ''lib64/security/pam*.so'', ''usr/bin/gnome*'', ''*~'', ''stage1_rpmlist'']"

definition tar_stage_dir :: "env \<Rightarrow> string \<Rightarrow> string \<Rightarrow> unit io" where
  "tar_stage_dir E stage_dir_abs tarball =
     io_bind (abspath tarball) (\<lambda>tarball_abs.
       let stage_dir_parent = dirname stage_dir_abs;
           stage_dir_base = basename stage_dir_abs;
           cmd = [''tar'', ''-C'', stage_dir_parent, ''-czf'', tarball_abs, stage_dir_base];
           stage1_filelist = path_join stage_dir_abs ''stage1_filelist''
       in io_bind
            (\<lambda>w. if isfile w stage1_filelist
                  then (let exclude_list = path_join stage_dir_parent ''exclude_list''
                        in io_then
                             (write_exclude_list stage1_filelist exclude_list stage_dir_base excludes)
                             (io_return (cmd @ [''--exclude-from='' @ exclude_list])) w)
                  else (Inr cmd, w))
            (\<lambda>cmd'.
               io_bind (call E cmd') (\<lambda>err.
                 if err \<noteq> 0
                 then io_raise (Error (''unable to create tarball ('' @ repr tarball_abs
                                         @ '') from stage 2 dir ('' @ repr stage_dir_abs @ '')''))
                 else io_return ())))"

subsection \<open>fix_alternatives_symlinks\<close>

text \<open>
  \<open>os.walk(top)\<close> (top down, links to directories not followed) with the loop over
  it. For each directory it lists the names, sorts them into \<open>dirs\<close> and \<open>nondirs\<close>
  with \<open>os.path.isdir\<close> (which follows symbolic links), hands \<open>(top, dirs, nondirs)\<close>
  to the loop body, and only then goes down into each name of \<open>dirs\<close> that is not a
  symbolic link. The walk is lazy: the body has run for a directory before the next
  one is listed, so \<open>isdir\<close> and \<open>islink\<close> are asked in the world the body has left.
  The recursion is on the entries of the directory as they were listed: the body
  below only replaces a symbolic link by a symbolic link, so no directory gains or
  loses a name while the walk goes on.
\<close>

function walk :: "(string \<Rightarrow> string list \<Rightarrow> string list \<Rightarrow> unit io) \<Rightarrow> string \<Rightarrow> node \<Rightarrow> unit io" where
  "walk body dirpath (Dir es) w =
     (let names = map fst es;
          dirs = filter (\<lambda>name. isdir w (path_join dirpath name)) names;
          nondirs = filter (\<lambda>name. \<not> isdir w (path_join dirpath name)) names
      in io_then (body dirpath dirs nondirs)
           (foreach dirs (\<lambda>name w'.
              if \<not> islink w' (path_join dirpath name)
              then (case map_of es name of
                      Some n \<Rightarrow> walk body (path_join dirpath name) n w'
                    | None \<Rightarrow> (Inr (), w'))
              else (Inr (), w'))) w)"
| "walk body dirpath (File s) w = (Inr (), w)"
| "walk body dirpath (Link t) w = (Inr (), w)"
  by pat_completeness auto
termination
proof (relation "measure (\<lambda>(body, dirpath, n, w). size n)")
  show "wf (measure (\<lambda>(body, dirpath, n, w). size n))"
    by simp
next
  fix body :: "string \<Rightarrow> string list \<Rightarrow> string list \<Rightarrow> unit io"
    and dirpath :: string and es :: "(string \<times> node) list" and w w' :: world
    and name :: string and n :: node
  assume "map_of es name = Some n"
  then have "(name, n) \<in> set es"
    by (rule map_of_SomeD)
  then have "size n < Suc (size_list (size_prod (\<lambda>x. 0) size) es)"
    by (induction es) auto
  then show "((body, path_join dirpath name, n, w'), (body, dirpath, Dir es, w))
               \<in> measure (\<lambda>(body, dirpath, n, w). size n)"
    by simp
qed

definition fix_link :: "string \<Rightarrow> string \<Rightarrow> string \<Rightarrow> unit io" where
  "fix_link stage_dir_abs dirpath afile w =
     (let afilepath = path_join dirpath afile in
      if \<not> islink w afilepath then (Inr (), w)
      else
        io_bind (readlink afilepath) (\<lambda>linkpath.
          if \<not> startswith linkpath ''/etc/alternatives'' then io_return ()
          else
            (let stage_linkpath = path_join stage_dir_abs (lstrip ''/'' linkpath) in
             (\<lambda>w1.
                if \<not> islink w1 stage_linkpath
                then print (''broken symlink to alternatives? '' @ afilepath @ '' -> '' @ stage_linkpath) w1
                else
                  io_bind (readlink stage_linkpath) (\<lambda>alternatives_linkpath.
                    let stage_alternatives_linkpath =
                          path_join stage_dir_abs (lstrip ''/'' alternatives_linkpath) in
                    (\<lambda>w2.
                       if \<not> exists w2 stage_alternatives_linkpath
                       then print (''broken symlink from alternatives? '' @ stage_linkpath @ '' -> ''
                                     @ stage_alternatives_linkpath) w2
                       else
                         io_bind (relpath stage_alternatives_linkpath (dirname afilepath))
                           (\<lambda>new_linkpath.
                              io_then (unlink afilepath) (symlink new_linkpath afilepath)) w2)) w1))) w)"

definition fix_alternatives_symlinks :: "string \<Rightarrow> unit io" where
  "fix_alternatives_symlinks stage_dir_abs w =
     (let dirpath = path_join stage_dir_abs ''usr'' in
      case locate True False w dirpath of
        None \<Rightarrow> (Inr (), w)
      | Some loc \<Rightarrow>
          (case lookup (root w) loc of
             None \<Rightarrow> (Inr (), w)
           | Some n \<Rightarrow>
               walk (\<lambda>dirpath' dirs files. foreach files (fix_link stage_dir_abs dirpath')) dirpath n w))"

subsection \<open>fix_permissions, remove_empty_dirs_from_tarball\<close>

definition fix_permissions :: "env \<Rightarrow> string \<Rightarrow> int io" where
  "fix_permissions E stage_dir_abs = call E [''chmod'', ''-R'', ''u+rwX'', stage_dir_abs]"

definition remove_empty_dirs_from_tarball :: "env \<Rightarrow> string \<Rightarrow> string \<Rightarrow> string list \<Rightarrow> unit io" where
  "remove_empty_dirs_from_tarball E tarball topdir recreate_dirs =
     io_bind (abspath tarball) (\<lambda>tarball_abs.
       let tarball_base = basename tarball in
       io_bind (run_mkdtemp E) (\<lambda>extract_dir.
       io_bind getcwd (\<lambda>oldcwd.
         try_finally
           (io_then (chdir extract_dir)
           (io_then (check_call E [''tar'', ''-xzf'', tarball_abs])
           (io_then (call E [''find'', topdir, ''-type'', ''d'', ''-empty'', ''-delete''])
           (io_then (foreach recreate_dirs (\<lambda>rdir.
                       collaborator (safe_makedirs E (path_join topdir (lstrip ''/'' rdir)))))
           (io_then (check_call E [''tar'', ''-czf'', tarball_base, topdir])
                    (copy tarball_base tarball_abs))))))
           (io_then (chdir oldcwd) (rmtree extract_dir)))))"

subsection \<open>make_stage2_tarball\<close>

text \<open>What the function returns: \<open>True\<close> from its \<open>return\<close> statement, \<open>None\<close> when
  it runs off its end.\<close>

datatype pyval = PyNone | PyBool bool

definition stage_statusmsg :: "string \<Rightarrow> string \<Rightarrow> string \<Rightarrow> unit io" where
  "stage_statusmsg dver basearch msg =
     statusmsg (''['' @ repr dver @ '','' @ repr basearch @ '']: '' @ msg)"

text \<open>The statements of the \<open>try\<close> block up to reading the stage 1 package list,
  which they answer.\<close>

definition steps_to_manifest ::
  "env \<Rightarrow> string \<Rightarrow> strs \<Rightarrow> strs option \<Rightarrow> string \<Rightarrow> string \<Rightarrow> string \<Rightarrow> string
     \<Rightarrow> int \<Rightarrow> string list option \<Rightarrow> string list io" where
  "steps_to_manifest E stage_dir_abs packages patch_dirs post_scripts_dir repofile dver basearch
       relnum extra_repos =
     io_then (stage_statusmsg dver basearch (''Installing packages '' @ repr_strs packages))
    (io_then (install_packages E stage_dir_abs packages repofile dver basearch extra_repos)
    (io_then
       (case patch_dirs of
          None \<Rightarrow> io_return ()
        | Some pd \<Rightarrow>
            io_then (stage_statusmsg dver basearch
                       (''Patching packages using '' @ repr_list (as_list pd)))
                    (patch_installed_packages E stage_dir_abs (as_list pd) dver))
    (io_then
       (io_bind (package_installed E stage_dir_abs ''gsi-openssh'') (\<lambda>installed.
          if installed
          then io_then (stage_statusmsg dver basearch ''Fixing gsissh config dir (if needed)'')
                       (fix_gsissh_config_dir E stage_dir_abs)
          else io_return ()))
    (io_then
       (io_bind (package_installed E stage_dir_abs ''osg-version'') (\<lambda>installed.
          if installed
          then io_then (stage_statusmsg dver basearch ''Fixing osg-version'')
                       (fix_osg_version stage_dir_abs relnum)
          else io_return ()))
    (io_then (stage_statusmsg dver basearch ''Fixing broken /etc/alternatives symlinks'')
    (io_then (fix_alternatives_symlinks stage_dir_abs)
    (io_then (stage_statusmsg dver basearch (''Copying OSG scripts from '' @ repr post_scripts_dir))
    (io_then (copy_osg_post_scripts E stage_dir_abs post_scripts_dir dver basearch)
             (get_stage1_rpmlist stage_dir_abs)))))))))"

text \<open>The statements of the \<open>try\<close> block from writing the package list to
  \<open>return True\<close>.\<close>

definition steps_from_manifest ::
  "env \<Rightarrow> string \<Rightarrow> string \<Rightarrow> string \<Rightarrow> string \<Rightarrow> string \<Rightarrow> string list \<Rightarrow> pyval io" where
  "steps_from_manifest E stage_dir stage_dir_abs tarball dver basearch stage1_rpmlist =
     io_then (stage_statusmsg dver basearch ''Writing package list to osg/rpm-versions.txt'')
    (io_then (write_package_list_file E stage_dir_abs (Some (StrList stage1_rpmlist)))
    (io_then (stage_statusmsg dver basearch ''Fixing permissions'')
    (io_then (fix_permissions E stage_dir_abs)
    (io_then (stage_statusmsg dver basearch (''Creating tarball '' @ repr tarball))
    (io_then (tar_stage_dir E stage_dir_abs tarball)
    (io_then (stage_statusmsg dver basearch ''Removing empty dirs from tarball'')
    (io_bind (package_installed E stage_dir_abs ''fetch-crl'') (\<lambda>installed.
       let recreate_dirs = [''var/lib/osg-ca-certs''] @ (if installed then [''etc/fetch-crl.d''] else [])
       in io_then (remove_empty_dirs_from_tarball E tarball (basename stage_dir) recreate_dirs)
                  (io_return (PyBool True))))))))))"

text \<open>The whole \<open>try\<close> block.\<close>

definition stage2_try_block ::
  "env \<Rightarrow> string \<Rightarrow> string \<Rightarrow> strs \<Rightarrow> string \<Rightarrow> strs option \<Rightarrow> string \<Rightarrow> string \<Rightarrow> string
     \<Rightarrow> string \<Rightarrow> int \<Rightarrow> string list option \<Rightarrow> pyval io" where
  "stage2_try_block E stage_dir stage_dir_abs packages tarball patch_dirs post_scripts_dir repofile
       dver basearch relnum extra_repos =
     io_bind
       (steps_to_manifest E stage_dir_abs packages patch_dirs post_scripts_dir repofile
          dver basearch relnum extra_repos)
       (steps_from_manifest E stage_dir stage_dir_abs tarball dver basearch)"

text \<open>The function: the first status message, \<open>os.path.abspath(stage_dir)\<close>, the
  \<open>try\<close> block, and the handler of \<open>except Error as err\<close>, after which the function
  runs off its end.\<close>

definition make_stage2_tarball ::
  "env \<Rightarrow> string \<Rightarrow> strs \<Rightarrow> string \<Rightarrow> strs option \<Rightarrow> string \<Rightarrow> string \<Rightarrow> string \<Rightarrow> string
     \<Rightarrow> int \<Rightarrow> string list option \<Rightarrow> pyval io" where
  "make_stage2_tarball E stage_dir packages tarball patch_dirs post_scripts_dir repofile dver
       basearch relnum extra_repos =
     io_then (stage_statusmsg dver basearch (''Making stage2 tarball in '' @ repr stage_dir))
       (io_bind (abspath stage_dir) (\<lambda>stage_dir_abs.
          try_except
            (stage2_try_block E stage_dir stage_dir_abs packages tarball patch_dirs post_scripts_dir
               repofile dver basearch relnum extra_repos)
            is_Error
            (\<lambda>err. io_then (errormsg (str_exn err)) (io_return PyNone))))"

section \<open>Notions for the statements\<close>

text \<open>A text with no newline before its last character: one line.\<close>

definition one_line :: "string \<Rightarrow> bool" where
  "one_line s = (nl \<notin> set (butlast s))"

text \<open>The world after the first status message of \<open>make_stage2_tarball\<close>.\<close>

definition start_msg :: "string \<Rightarrow> string \<Rightarrow> string \<Rightarrow> world \<Rightarrow> world" where
  "start_msg stage_dir dver basearch w =
     snd (stage_statusmsg dver basearch (''Making stage2 tarball in '' @ repr stage_dir) w)"

text \<open>The path of the package list under the staging root.\<close>

definition manifest_path :: "string \<Rightarrow> string" where
  "manifest_path stage_dir_abs = path_join stage_dir_abs ''osg/rpm-versions.txt''"

text \<open>The package list in the spec's words, to compare \<open>write_package_list_file\<close>
  with: what is installed less the baseline, without duplicates, sorted, joined by
  newlines, and a newline at the end.\<close>

definition manifest_text :: "string set \<Rightarrow> string set \<Rightarrow> string" where
  "manifest_text installed baseline =
     join_with [nl] (sorted_list_of_set (installed - baseline)) @ [nl]"

text \<open>A name a directory entry can have; the collaborators that leave the directory at
  \<open>d\<close> a directory (the child processes and \<open>safe_makedirs\<close>); and the statements
  that do.\<close>

definition valid_name :: "string \<Rightarrow> bool" where
  "valid_name n = (n \<noteq> [] \<and> n \<noteq> ''.'' \<and> n \<noteq> ''..'' \<and> slash \<notin> set n)"

definition tools_keep_dir :: "env \<Rightarrow> string list \<Rightarrow> bool" where
  "tools_keep_dir E d =
     ((\<forall>argv wd fs rc out fs'.
         exec E argv wd fs = Some (rc, out, fs') \<longrightarrow> kind_at fs d = Some KDir \<longrightarrow>
         kind_at fs' d = Some KDir)
      \<and> (\<forall>p wd fs e fs'.
         safe_makedirs E p wd fs = (e, fs') \<longrightarrow> kind_at fs d = Some KDir \<longrightarrow>
         kind_at fs' d = Some KDir))"

definition dir_kept :: "string list \<Rightarrow> 'a io \<Rightarrow> bool" where
  "dir_kept d m =
     (\<forall>w. kind_at (root w) d = Some KDir \<longrightarrow> kind_at (root (snd (m w))) d = Some KDir)"

section \<open>Example worlds\<close>

text \<open>Staging roots with a version file: the spec's example before and after the
  rewrite, a file of two lines, and a file of two lines whose first line does not
  start with a version.\<close>

definition version_world :: world where
  "version_world =
     \<lparr>root = Dir [(''stage'', Dir [(''etc'', Dir [(''osg-version'', File ''3.4.5\<newline>'')])])],
      cwd = [], log = [], calls = []\<rparr>"

definition version_world' :: world where
  "version_world' =
     \<lparr>root = Dir [(''stage'', Dir [(''etc'', Dir [(''osg-version'', File ''3.4.5-tarball-2\<newline>'')])])],
      cwd = [], log = [], calls = []\<rparr>"

definition two_line_world :: world where
  "two_line_world =
     \<lparr>root = Dir [(''stage'', Dir [(''etc'', Dir [(''osg-version'', File ''3.4.5\<newline>built by hand\<newline>'')])])],
      cwd = [], log = [], calls = []\<rparr>"

text \<open>Collaborators: all commands succeed and change nothing; all commands exit with
  1; only \<open>rpm -qa\<close> and the queries for the optional packages exit with 1.\<close>

definition unversioned_world :: world where
  "unversioned_world =
     \<lparr>root = Dir [(''stage'', Dir [(''etc'', Dir [(''osg-version'', File ''OSG 3.4.5\<newline>built by hand\<newline>'')])])],
      cwd = [], log = [], calls = []\<rparr>"

definition quiet_env :: env where
  "quiet_env =
     \<lparr>exec = (\<lambda>argv wd fs. Some (0, [], fs)),
      glob = (\<lambda>pattern wd fs. []),
      yum_install = (\<lambda>stage packages repofile dver basearch extra_repos wd fs. (None, fs)),
      safe_makedirs = (\<lambda>p wd fs. (None, fs)),
      write_setup_in_files = (\<lambda>dest dver basearch wd fs. (None, fs)),
      mkdtemp = (\<lambda>wd fs. (Inr ''/tmp/extract'', fs))\<rparr>"

definition failing_env :: env where
  "failing_env = quiet_env\<lparr>exec := (\<lambda>argv wd fs. Some (1, [], fs))\<rparr>"

definition qa_failing_env :: env where
  "qa_failing_env =
     quiet_env\<lparr>exec := (\<lambda>argv wd fs.
        if argv = [''rpm'', ''--root'', ''/build/stage2'', ''-qa''] then Some (1, [], fs)
        else if argv = [''rpm'', ''--root'', ''/build/stage2'', ''-q'', ''osg-client''] then Some (0, [], fs)
        else if take 4 argv = [''rpm'', ''--root'', ''/build/stage2'', ''-q''] then Some (1, [], fs)
        else Some (0, [], fs))\<rparr>"

text \<open>A build host: the staging root \<open>/build/stage2\<close> without a \<open>stage1_filelist\<close>,
  the post-install scripts, and the directory \<open>mkdtemp\<close> answers.\<close>

definition build_world :: world where
  "build_world =
     \<lparr>root = Dir
        [(''build'', Dir
           [(''stage2'', Dir
              [(''stage1_rpmlist'', File ''a-1-1\<newline>b-2-1\<newline>''),
               (''etc'', Dir [(''osg-version'', File ''3.4.5\<newline>'')]),
               (''osg'', Dir []),
               (''tmp'', Dir [(''junk'', File ''x'')]),
               (''usr'', Dir [])])]),
         (''scripts'', Dir [(''osg-post-install'', File ''#!/bin/sh\<newline>''),
                           (''osgrun.in'', File ''#!/bin/sh\<newline>'')]),
         (''tmp'', Dir [(''extract'', Dir [(''out.tgz'', File ''tar'')])])],
      cwd = [], log = [], calls = []\<rparr>"

text \<open>A staging root whose baseline file list has entries that start with a dot.\<close>

definition filelist_world :: world where
  "filelist_world =
     \<lparr>root = Dir
        [(''build'', Dir
           [(''stage2'', Dir
              [(''stage1_filelist'', File ''etc/foo.conf\<newline>.bashrc\<newline>./.ssh/config\<newline>'')])])],
      cwd = [], log = [], calls = []\<rparr>"

text \<open>A staging root with two alternatives: \<open>usr/bin/x\<close>, whose chain ends at a file,
  and \<open>usr/lib/jvm/jre\<close>, whose chain ends at a directory; on a build host that has
  \<open>/etc/alternatives/jre\<close> itself, and on one that has not.\<close>

definition java_stage :: node where
  "java_stage =
     Dir [(''etc'', Dir [(''alternatives'',
             Dir [(''jre'', Link ''/usr/lib/jvm/jre-1.7.0''), (''x'', Link ''/usr/bin/x-real'')])]),
          (''usr'', Dir [(''bin'', Dir [(''x'', Link ''/etc/alternatives/x''), (''x-real'', File [])]),
                        (''lib'', Dir [(''jvm'',
                           Dir [(''jre'', Link ''/etc/alternatives/jre''),
                                (''jre-1.7.0'', Dir [(''bin'', Dir [])])])])])]"

definition java_host_world :: world where
  "java_host_world =
     \<lparr>root = Dir
        [(''etc'', Dir [(''alternatives'', Dir [(''jre'', Link ''/usr/lib/jvm/jre-1.7.0'')])]),
         (''usr'', Dir [(''lib'', Dir [(''jvm'', Dir [(''jre-1.7.0'', Dir [])])])]),
         (''stage'', java_stage)],
      cwd = [], log = [], calls = []\<rparr>"

definition plain_host_world :: world where
  "plain_host_world =
     \<lparr>root = Dir [(''etc'', Dir []), (''usr'', Dir []), (''stage'', java_stage)],
      cwd = [], log = [], calls = []\<rparr>"

text \<open>Two patch directories whose files interleave by basename and share one
  basename; the output of \<open>rpm -qa\<close> of the spec's example; patches that fail; and the
  build host seen from the working directory \<open>/scripts\<close>.\<close>

definition patch_env :: env where
  "patch_env =
     quiet_env\<lparr>glob := (\<lambda>pattern wd fs.
        if pattern = ''/patches/common/*.patch''
          then [''/patches/common/03-paths.patch'', ''/patches/common/01-config.patch'']
        else if pattern = ''/patches/el6/*.patch''
          then [''/patches/el6/02-init.patch'', ''/patches/el6/01-config.patch'']
        else [])\<rparr>"

definition listing_env :: env where
  "listing_env =
     quiet_env\<lparr>exec := (\<lambda>argv wd fs. Some (0, ''a-1-1\<newline>b-2-1\<newline>c-3-1\<newline>'', fs))\<rparr>"

definition failing_patch_env :: env where
  "failing_patch_env = patch_env\<lparr>exec := (\<lambda>argv wd fs. Some (1, [], fs))\<rparr>"

definition scripts_world :: world where
  "scripts_world = build_world\<lparr>cwd := [''scripts'']\<rparr>"

section \<open>Statements\<close>

lemma io_bind_Inr: "m w = (Inr x, w') \<Longrightarrow> io_bind m f w = f x w'"
  by (simp add: io_bind_def)

lemma io_bind_Inl: "m w = (Inl e, w') \<Longrightarrow> io_bind m f w = (Inl e, w')"
  by (simp add: io_bind_def)

lemma io_then_Inr: "m w = (Inr x, w') \<Longrightarrow> io_then m n w = n w'"
  by (simp add: io_then_def io_bind_def)

lemma io_then_Inl: "m w = (Inl e, w') \<Longrightarrow> io_then m n w = (Inl e, w')"
  by (simp add: io_then_def io_bind_def)

lemma io_return_apply: "io_return x w = (Inr x, w)"
  by (simp add: io_return_def)

lemma io_raise_apply: "io_raise e w = (Inl e, w)"
  by (simp add: io_raise_def)

section \<open>Updating the tree\<close>

lemma map_of_map_entry:
  "map_of (map (\<lambda>e. if fst e = c then (c, f (snd e)) else e) es) d =
     (if d = c then map_option f (map_of es c) else map_of es d)"
  by (induction es) auto

lemma map_of_set_entry_Some:
  "map_of (set_entry c (Some n) es) d = (if d = c then Some n else map_of es d)"
proof (cases "c \<in> fst ` set es")
  case True
  then have "map_of es c \<noteq> None"
    by (simp add: map_of_eq_None_iff)
  then show ?thesis
    using True map_of_map_entry [of c "\<lambda>_. n" es d] by (auto simp: set_entry_def)
next
  case False
  then have "map_of es c = None"
    by (simp add: map_of_eq_None_iff)
  then show ?thesis
    using False by (auto simp: set_entry_def map_add_def split: option.splits)
qed

lemma kind_at_Nil: "kind_at r [] = Some (kind_of r)"
  by (simp add: kind_at_def)

lemma kind_at_Cons_Dir:
  "kind_at (Dir es) (c # cs) = (case map_of es c of None \<Rightarrow> None | Some n \<Rightarrow> kind_at n cs)"
  by (simp add: kind_at_def split: option.splits)

lemma kind_at_Cons_File: "kind_at (File s) (c # cs) = None"
  by (simp add: kind_at_def)

lemma kind_at_Cons_Link: "kind_at (Link t) (c # cs) = None"
  by (simp add: kind_at_def)

lemma kind_at_File: "kind_at (File s) q = (if q = [] then Some KFile else None)"
  by (cases q) (simp_all add: kind_at_def)

lemma kind_of_KFile: "kind_of n = KFile \<Longrightarrow> \<exists>s. n = File s"
  by (cases n) simp_all

lemma kind_at_write:
  "kind_at r loc = Some KFile \<or> (kind_at r loc = None \<and> parent_is_dir r loc) \<Longrightarrow>
   kind_at (update loc (Some (File s)) r) q = (if q = loc then Some KFile else kind_at r q)"
proof (induction loc arbitrary: r q)
  case Nil
  then show ?case
    by (cases r; cases q) (auto simp: kind_at_Nil kind_at_Cons_File parent_is_dir_def)
next
  case (Cons c cs)
  show ?case
  proof (cases r)
    case (File s0)
    with Cons.prems show ?thesis
      by (cases cs) (auto simp: kind_at_Cons_File kind_at_Nil parent_is_dir_def)
  next
    case (Link t)
    with Cons.prems show ?thesis
      by (cases cs) (auto simp: kind_at_Cons_Link kind_at_Nil parent_is_dir_def)
  next
    case (Dir es)
    show ?thesis
    proof (cases "cs = []")
      case True
      with Cons.prems Dir show ?thesis
        by (cases q)
           (auto simp: kind_at_Nil kind_at_Cons_Dir map_of_set_entry_Some kind_at_File
                 dest!: kind_of_KFile split: option.splits)
    next
      case False
      show ?thesis
      proof (cases q)
        case Nil
        with Dir False show ?thesis by (simp add: kind_at_Nil)
      next
        case (Cons d ds)
        show ?thesis
        proof (cases "d = c")
          case neq: False
          with Dir False Cons show ?thesis
            by (simp add: kind_at_Cons_Dir map_of_map_entry)
        next
          case True
          show ?thesis
          proof (cases "map_of es c")
            case None
            from False have bl: "butlast (c # cs) = c # butlast cs" by simp
            from None Cons.prems Dir \<open>cs \<noteq> []\<close> have False
              by (auto simp: kind_at_Cons_Dir parent_is_dir_def)
            then show ?thesis ..
          next
            case (Some n)
            from False have bl: "butlast (c # cs) = c # butlast cs" by simp
            have "kind_at n cs = Some KFile \<or> (kind_at n cs = None \<and> parent_is_dir n cs)"
              using Cons.prems Dir Some False
              by (auto simp: kind_at_Cons_Dir parent_is_dir_def bl)
            from Cons.IH [OF this, of ds] Dir False Cons True Some show ?thesis
              by (simp add: kind_at_Cons_Dir map_of_map_entry)
          qed
        qed
      qed
    qed
  qed
qed

lemma lookup_write:
  "kind_at r loc = Some KFile \<or> (kind_at r loc = None \<and> parent_is_dir r loc) \<Longrightarrow>
   lookup (update loc (Some (File s)) r) loc = Some (File s)"
proof (induction loc arbitrary: r)
  case Nil
  then show ?case by simp
next
  case (Cons c cs)
  show ?case
  proof (cases r)
    case (File s0)
    with Cons.prems show ?thesis
      by (cases cs) (auto simp: kind_at_Cons_File kind_at_Nil parent_is_dir_def)
  next
    case (Link t)
    with Cons.prems show ?thesis
      by (cases cs) (auto simp: kind_at_Cons_Link kind_at_Nil parent_is_dir_def)
  next
    case (Dir es)
    show ?thesis
    proof (cases "cs = []")
      case True
      with Dir show ?thesis by (simp add: map_of_set_entry_Some)
    next
      case False
      from False have bl: "butlast (c # cs) = c # butlast cs" by simp
      show ?thesis
      proof (cases "map_of es c")
        case None
        with Cons.prems Dir False show ?thesis
          by (auto simp: kind_at_Cons_Dir parent_is_dir_def bl)
      next
        case (Some n)
        have "kind_at n cs = Some KFile \<or> (kind_at n cs = None \<and> parent_is_dir n cs)"
          using Cons.prems Dir Some False
          by (auto simp: kind_at_Cons_Dir parent_is_dir_def bl)
        from Cons.IH [OF this] Dir False Some show ?thesis
          by (simp add: map_of_map_entry)
      qed
    qed
  qed
qed

lemma set_entry_twice: "set_entry c (Some n) (set_entry c (Some n) es) = set_entry c (Some n) es"
proof (cases "c \<in> fst ` set es")
  case True
  have "c \<in> fst ` set (map (\<lambda>e. if fst e = c then (c, n) else e) es)"
    using True by (induction es) auto
  then show ?thesis
    using True by (simp add: set_entry_def o_def cong: map_cong)
next
  case False
  then have "map (\<lambda>e. if fst e = c then (c, n) else e) es = es"
    by (induction es) auto
  with False show ?thesis
    by (simp add: set_entry_def)
qed

lemma update_twice: "update loc (Some n) (update loc (Some n) r) = update loc (Some n) r"
proof (induction loc arbitrary: r)
  case Nil
  then show ?case by simp
next
  case (Cons c cs)
  show ?case
  proof (cases r)
    case (Dir es)
    show ?thesis
    proof (cases "cs = []")
      case True
      with Dir show ?thesis by (simp add: set_entry_twice)
    next
      case False
      with Dir Cons.IH show ?thesis
        by (simp add: o_def)
    qed
  qed simp_all
qed

section \<open>Resolution sees kinds only\<close>

lemma resolve_cong:
  "(\<And>q. kind_at r' q = kind_at r q) \<Longrightarrow>
   resolve fuel follow create r' cur cs = resolve fuel follow create r cur cs"
proof (induction fuel follow create r cur cs rule: resolve.induct)
  case (1 fuel follow create r cur)
  then show ?case by simp
next
  case (2 fuel follow create r cur c cs)
  show ?case
    using "2.prems" "2.IH"
    by (auto split: option.splits kind.splits nat.splits)
qed

lemma resolve_create:
  "resolve fuel follow False r cur cs = Some loc \<Longrightarrow>
   resolve fuel follow True r cur cs = Some loc"
proof (induction fuel follow False r cur cs rule: resolve.induct)
  case (1 fuel follow r cur)
  then show ?case by simp
next
  case (2 fuel follow r cur c cs)
  show ?case
    using "2.prems" "2.hyps"
    by (auto split: option.splits kind.splits nat.splits if_splits)
qed

section \<open>Lines\<close>

lemma readline_Nil: "readline [] = []"
  by (simp add: readline_def)

lemma readline_Cons: "readline (c # cs) = (if c = nl then [c] else c # readline cs)"
  by (simp add: readline_def)

lemma one_line_readline: "one_line (readline s)"
  by (induction s) (auto simp: readline_Nil readline_Cons one_line_def)

lemma readline_one_line: "one_line s \<Longrightarrow> readline s = s"
  by (induction s) (auto simp: readline_Nil readline_Cons one_line_def split: if_splits)

section \<open>The version string\<close>

lemma contains_startswith: "startswith s sub \<Longrightarrow> contains s sub"
  by (cases s) (auto simp: startswith_def)

lemma contains_mid: "contains (a @ sub @ b) sub"
proof (induction a)
  case Nil
  have "startswith (sub @ b) sub"
    by (simp add: startswith_def)
  then show ?case
    by (simp add: contains_startswith)
next
  case (Cons x a)
  then show ?case by simp
qed

lemma backtrack_bounds: "backtrack n s = Some k \<Longrightarrow> 0 < k \<and> k \<le> n"
  by (induction n) (auto split: if_splits)

lemma str_nat_digits: "set (str_nat n) \<subseteq> set ''0123456789''"
proof (induction n rule: str_nat.induct)
  case (1 n)
  have d: "''0123456789'' ! k \<in> set ''0123456789''" if "k < 10" for k :: nat
    using that nth_mem [of k "''0123456789''"] by simp
  show ?case
  proof (cases "n < 10")
    case True
    then show ?thesis
      using d [of n] by (subst str_nat.simps) simp
  next
    case False
    have "n mod 10 < 10" by simp
    with False "1.IH" d [of "n mod 10"] show ?thesis
      by (subst str_nat.simps) auto
  qed
qed

lemma nl_not_in_str_int: "nl \<notin> set (str_int i)"
  using str_nat_digits [of "nat i"] str_nat_digits [of "nat (- i)"]
  by (auto simp: str_int_def nl_def)

lemma nl_not_in_relnum_suffix: "nl \<notin> set (relnum_suffix relnum)"
  using nl_not_in_str_int [of relnum] by (auto simp: relnum_suffix_def nl_def)

lemma take_takeWhile: "k \<le> length (takeWhile P s) \<Longrightarrow> set (take k s) \<subseteq> {c. P c}"
proof (induction s arbitrary: k)
  case Nil
  then show ?case by simp
next
  case (Cons c s)
  then show ?case
    by (cases k) (auto split: if_splits)
qed

lemma one_line_splice:
  assumes "one_line v" "nl \<notin> set a" "nl \<notin> set m" "m \<noteq> []"
  shows "one_line (a @ m @ drop k v)"
proof -
  have "set (butlast (drop k v)) \<subseteq> set (butlast v)"
    by (simp add: butlast_drop set_drop_subset)
  with assms(1) have "nl \<notin> set (butlast (drop k v))"
    by (auto simp: one_line_def)
  with assms(2,3,4) show ?thesis
    by (auto simp: one_line_def butlast_append dest: in_set_butlastD)
qed

lemma new_version_str_cases:
  "new_version_str relnum v = v \<or>
   (\<exists>k. 0 < k \<and> k \<le> length (takeWhile is_verchar v) \<and>
        new_version_str relnum v = take k v @ ''-tarball'' @ relnum_suffix relnum @ drop k v)"
  using backtrack_bounds [of "length (takeWhile is_verchar v)" v]
  by (auto simp: new_version_str_def re_sub_version_def split: option.splits)

lemma new_version_str_idem:
  "new_version_str relnum (new_version_str relnum v) = new_version_str relnum v"
proof (cases "contains v ''tarball''")
  case True
  then show ?thesis by (simp add: new_version_str_def)
next
  case False
  show ?thesis
  proof (cases "backtrack (length (takeWhile is_verchar v)) v")
    case None
    with False show ?thesis
      by (simp add: new_version_str_def re_sub_version_def)
  next
    case (Some k)
    have "contains ((take k v @ ''-'') @ ''tarball'' @ (relnum_suffix relnum @ drop k v)) ''tarball''"
      by (rule contains_mid)
    with False Some show ?thesis
      by (simp add: new_version_str_def re_sub_version_def)
  qed
qed

lemma new_version_str_one_line:
  assumes "one_line v"
  shows "one_line (new_version_str relnum v)"
  using new_version_str_cases [of relnum v]
proof
  assume "new_version_str relnum v = v"
  with assms show ?thesis by simp
next
  assume "\<exists>k. 0 < k \<and> k \<le> length (takeWhile is_verchar v) \<and>
        new_version_str relnum v = take k v @ ''-tarball'' @ relnum_suffix relnum @ drop k v"
  then obtain k where k: "k \<le> length (takeWhile is_verchar v)"
    and eq: "new_version_str relnum v = take k v @ (''-tarball'' @ relnum_suffix relnum) @ drop k v"
    by auto
  have "nl \<notin> set (take k v)"
    using take_takeWhile [OF k] by (auto simp: is_verchar_def nl_def)
  moreover have "nl \<notin> set (''-tarball'' @ relnum_suffix relnum)"
    using nl_not_in_relnum_suffix [of relnum] by (auto simp: nl_def)
  ultimately show ?thesis
    unfolding eq using assms by (intro one_line_splice) auto
qed

lemma new_version_str_nonempty: "v \<noteq> [] \<Longrightarrow> new_version_str relnum v \<noteq> []"
  using new_version_str_cases [of relnum v] by auto

lemma new_version_str_match:
  assumes "re_match_version v"
  shows "re_match_version (new_version_str relnum v)"
  using new_version_str_cases [of relnum v]
proof
  assume "new_version_str relnum v = v"
  with assms show ?thesis by simp
next
  assume "\<exists>k. 0 < k \<and> k \<le> length (takeWhile is_verchar v) \<and>
        new_version_str relnum v = take k v @ ''-tarball'' @ relnum_suffix relnum @ drop k v"
  then obtain k where k: "0 < k"
    and eq: "new_version_str relnum v = take k v @ ''-tarball'' @ relnum_suffix relnum @ drop k v"
    by auto
  from assms obtain c cs where v: "v = c # cs" and c: "is_verchar c"
    by (cases v) (auto simp: re_match_version_def split: if_splits)
  from k obtain k' where "k = Suc k'" by (cases k) auto
  with v c show ?thesis
    unfolding eq by (simp add: re_match_version_def)
qed

section \<open>Reading back what was written\<close>

lemma locate_cong:
  "(\<And>q. kind_at r' q = kind_at (root w) q) \<Longrightarrow>
   locate follow create (w\<lparr>root := r'\<rparr>) p = locate follow create w p"
  using resolve_cong [of r' "root w"] by (simp add: locate_def)

lemma locate_create: "locate follow False w p = Some loc \<Longrightarrow> locate follow True w p = Some loc"
  by (auto simp: locate_def resolve_create split: if_splits)

lemma read_file_Inr:
  "read_file p w = (Inr content, w') \<Longrightarrow>
   w' = w \<and> (\<exists>loc. locate True False w p = Some loc \<and> lookup (root w) loc = Some (File content))"
  by (auto simp: read_file_def split: option.splits node.splits)

lemma read_file_Inl: "read_file p w = (Inl e, w') \<Longrightarrow> w' = w"
  by (auto simp: read_file_def split: option.splits node.splits)

lemma read_file_located:
  "locate True False w p = Some loc \<Longrightarrow> lookup (root w) loc = Some (File content) \<Longrightarrow>
   read_file p w = (Inr content, w)"
  by (simp add: read_file_def)

lemma write_file_over:
  "locate True False w p = Some loc \<Longrightarrow> lookup (root w) loc = Some (File old) \<Longrightarrow>
   write_file p s w = (Inr (), w\<lparr>root := update loc (Some (File s)) (root w)\<rparr>)"
  by (simp add: write_file_def locate_create kind_at_def)

lemma read_after_write_over:
  assumes "locate True False w p = Some loc" "lookup (root w) loc = Some (File old)"
  shows "read_file p (w\<lparr>root := update loc (Some (File s)) (root w)\<rparr>) =
           (Inr s, w\<lparr>root := update loc (Some (File s)) (root w)\<rparr>)"
proof -
  let ?r = "update loc (Some (File s)) (root w)"
  have k: "kind_at (root w) loc = Some KFile"
    using assms(2) by (simp add: kind_at_def)
  have same: "kind_at ?r q = kind_at (root w) q" for q
    using kind_at_write [of "root w" loc s q] k by auto
  have "locate True False (w\<lparr>root := ?r\<rparr>) p = Some loc"
    using locate_cong [of ?r w True False p] same assms(1) by simp
  moreover have "lookup ?r loc = Some (File s)"
    using lookup_write [of "root w" loc s] k by simp
  ultimately show ?thesis
    by (simp add: read_file_def)
qed

section \<open>fix_osg_version\<close>

lemma fix_osg_version_read_error:
  "read_file (osg_version_path stage) w = (Inl e, w') \<Longrightarrow>
   fix_osg_version stage relnum w = (Inl e, w')"
  by (simp add: fix_osg_version_def io_bind_def)

lemma fix_osg_version_run:
  assumes "locate True False w (osg_version_path stage) = Some loc"
    and "lookup (root w) loc = Some (File content)"
  shows "fix_osg_version stage relnum w =
     (if readline content = []
        then (Inl (Error (''Could not read version string from '' @ repr (osg_version_path stage))), w)
      else if \<not> re_match_version (readline content)
        then (Inl (Error (repr (osg_version_path stage) @ '' does not contain version'')), w)
      else (Inr (), w\<lparr>root := update loc (Some (File (new_version_str relnum (readline content)))) (root w)\<rparr>))"
  using read_file_located [OF assms] write_file_over [OF assms]
  by (simp add: fix_osg_version_def io_bind_def io_raise_def Let_def)

lemma fix_osg_version_twice:
  "io_then (fix_osg_version stage relnum) (fix_osg_version stage relnum) w =
   fix_osg_version stage relnum w"
proof (cases "read_file (osg_version_path stage) w")
  case (Pair res w')
  show ?thesis
  proof (cases res)
    case (Inl e)
    with Pair have "fix_osg_version stage relnum w = (Inl e, w')"
      by (simp add: fix_osg_version_read_error)
    then show ?thesis
      by (simp add: io_then_Inl)
  next
    case (Inr content)
    with Pair obtain loc where loc: "locate True False w (osg_version_path stage) = Some loc"
      and f: "lookup (root w) loc = Some (File content)"
      using read_file_Inr by blast
    let ?v = "readline content"
    let ?new = "new_version_str relnum ?v"
    let ?w1 = "w\<lparr>root := update loc (Some (File ?new)) (root w)\<rparr>"
    note run = fix_osg_version_run [OF loc f, of relnum]
    show ?thesis
    proof (cases "?v = [] \<or> \<not> re_match_version ?v")
      case True
      then obtain e where "fix_osg_version stage relnum w = (Inl e, w)"
        using run by (auto split: if_splits)
      then show ?thesis
        by (simp add: io_then_Inl)
    next
      case False
      then have first: "fix_osg_version stage relnum w = (Inr (), ?w1)"
        using run by simp
      have k: "kind_at (root w) loc = Some KFile"
        using f by (simp add: kind_at_def)
      have same: "kind_at (root ?w1) q = kind_at (root w) q" for q
        using kind_at_write [of "root w" loc ?new q] k by auto
      have loc1: "locate True False ?w1 (osg_version_path stage) = Some loc"
        using locate_cong [of "root ?w1" w True False "osg_version_path stage"] same loc by simp
      have f1: "lookup (root ?w1) loc = Some (File ?new)"
        using lookup_write [of "root w" loc ?new] k by simp
      have rl: "readline ?new = ?new"
        by (intro readline_one_line new_version_str_one_line one_line_readline)
      have ne: "?new \<noteq> []"
        using False by (simp add: new_version_str_nonempty)
      have m: "re_match_version ?new"
        using False by (simp add: new_version_str_match)
      have "fix_osg_version stage relnum ?w1 =
              (Inr (), ?w1\<lparr>root := update loc (Some (File ?new)) (root ?w1)\<rparr>)"
        using fix_osg_version_run [OF loc1 f1, of relnum] rl ne m
        by (simp add: new_version_str_idem)
      also have "?w1\<lparr>root := update loc (Some (File ?new)) (root ?w1)\<rparr> = ?w1"
        by (simp add: update_twice)
      finally have "fix_osg_version stage relnum ?w1 = (Inr (), ?w1)" .
      with first show ?thesis
        by (simp add: io_then_Inr)
    qed
  qed
qed

lemma file_lines_one_line: "one_line s \<Longrightarrow> cur @ s \<noteq> [] \<Longrightarrow> file_lines cur s = [cur @ s]"
proof (induction s arbitrary: cur)
  case Nil
  then show ?case by simp
next
  case (Cons c s)
  show ?case
  proof (cases "s = []")
    case True
    then show ?thesis by simp
  next
    case False
    with Cons.prems have "c \<noteq> nl" and "one_line s"
      by (auto simp: one_line_def)
    with Cons.IH [of "cur @ [c]"] show ?thesis by simp
  qed
qed

lemma readline_first: "nl \<notin> set l \<Longrightarrow> readline (l @ [nl] @ rest) = l @ [nl]"
  by (induction l) (auto simp: readline_Cons)

section \<open>The top level\<close>

lemma stage_statusmsg_apply:
  "stage_statusmsg dver basearch m w =
     (Inr (), w\<lparr>log := log w @ [Status (''['' @ repr dver @ '','' @ repr basearch @ '']: '' @ m)]\<rparr>)"
  by (simp add: stage_statusmsg_def statusmsg_def)

lemma getcwd_not_Error: "getcwd w = (Inl e, w') \<Longrightarrow> \<not> is_Error e"
  by (auto simp: getcwd_def split: if_splits)

lemma abspath_not_Error: "abspath p w = (Inl e, w') \<Longrightarrow> \<not> is_Error e"
  by (auto simp: abspath_def io_return_def io_bind_def getcwd_def split: if_splits)

lemma io_bind_InrE:
  assumes "io_bind m f w = (Inr v, w')"
  obtains x w1 where "m w = (Inr x, w1)" "f x w1 = (Inr v, w')"
  using assms by (auto simp: io_bind_def split: prod.splits sum.splits)

lemma io_then_InrE:
  assumes "io_then m n w = (Inr v, w')"
  obtains x w1 where "m w = (Inr x, w1)" "n w1 = (Inr v, w')"
  using assms by (auto simp: io_then_def io_bind_def split: prod.splits sum.splits)

lemma steps_from_manifest_True:
  assumes "steps_from_manifest E stage_dir stage_dir_abs tarball dver basearch rpmlist w = (Inr v, w')"
  shows "v = PyBool True"
  using assms unfolding steps_from_manifest_def
  by (elim io_then_InrE io_bind_InrE) (auto simp: Let_def io_return_def elim!: io_then_InrE)

lemma stage2_try_block_True:
  assumes "stage2_try_block E stage_dir stage_dir_abs packages tarball patch_dirs post_scripts_dir
             repofile dver basearch relnum extra_repos w = (Inr v, w')"
  shows "v = PyBool True"
  using assms unfolding stage2_try_block_def
  by (elim io_bind_InrE) (rule steps_from_manifest_True)

lemma make_stage2_tarball_by_block:
  assumes "abspath stage_dir (start_msg stage_dir dver basearch w) = (Inr stage_dir_abs, w1)"
    and "stage2_try_block E stage_dir stage_dir_abs packages tarball patch_dirs post_scripts_dir
             repofile dver basearch relnum extra_repos w1 = (r, w2)"
  shows "make_stage2_tarball E stage_dir packages tarball patch_dirs post_scripts_dir repofile
           dver basearch relnum extra_repos w =
         (case r of
            Inr v \<Rightarrow> (Inr v, w2)
          | Inl e \<Rightarrow> (if is_Error e then (Inr PyNone, w2\<lparr>log := log w2 @ [ErrorMsg (str_exn e)]\<rparr>)
                      else (Inl e, w2)))"
  using assms
  by (simp add: make_stage2_tarball_def start_msg_def stage_statusmsg_apply io_then_def io_bind_def
        try_except_def errormsg_def io_return_def split: sum.splits)

lemma make_stage2_tarball_abspath_fails:
  assumes "abspath stage_dir (start_msg stage_dir dver basearch w) = (Inl e, w1)"
  shows "make_stage2_tarball E stage_dir packages tarball patch_dirs post_scripts_dir repofile
           dver basearch relnum extra_repos w = (Inl e, w1)"
  using assms
  by (simp add: make_stage2_tarball_def start_msg_def stage_statusmsg_apply io_then_def io_bind_def)

lemma popen_apply:
  "exec E argv (cwd w) (root w) = Some (rc, out, fs) \<Longrightarrow>
   popen E argv w = (Inr (rc, out), w\<lparr>root := fs, calls := calls w @ [argv]\<rparr>)"
  by (simp add: popen_def)

lemma write_package_list_file_fails:
  assumes "exec E (rpm_qa_cmd stage_dir_abs) (cwd w) (root w) = Some (rc, out, fs)" and "rc \<noteq> 0"
  shows "write_package_list_file E stage_dir_abs exclude_list w =
           (Inl (CalledProcessError rc (CmdStr (join_with '' '' (rpm_qa_cmd stage_dir_abs)))),
            w\<lparr>root := fs, calls := calls w @ [rpm_qa_cmd stage_dir_abs]\<rparr>)"
  using popen_apply [OF assms(1)] assms(2)
  by (simp add: write_package_list_file_def io_bind_def io_raise_def)

section \<open>The order of the patches\<close>

lemma cmp_le_0: "cmp a b \<le> 0 \<longleftrightarrow> a \<le> b"
  by (auto simp: cmp_def)

lemma insort_cmp_basename: "insort_cmp cmp_basename x ys = insort_key basename x ys"
  by (induction ys) (simp_all add: cmp_basename_def cmp_le_0)

lemma sort_cmp_basename: "sort_cmp cmp_basename xs = sort_key basename xs"
  by (induction xs) (simp_all add: sort_cmp_def sort_key_def insort_cmp_basename)

lemma statusmsg_calls: "statusmsg m w = (r, w') \<Longrightarrow> calls w' = calls w \<and> root w' = root w \<and> cwd w' = cwd w"
  by (auto simp: statusmsg_def)

lemma apply_patch_cases:
  "(\<exists>e w'. apply_patch E p w = (Inl e, w') \<and> calls w' = calls w)
   \<or> (\<exists>e w'. apply_patch E p w = (Inl e, w') \<and> calls w' = calls w @ [patch_cmd p])
   \<or> (\<exists>w'. apply_patch E p w = (Inr (), w') \<and> calls w' = calls w @ [patch_cmd p])"
  by (cases "exec E (patch_cmd p) (cwd w) (root w)")
     (auto simp: apply_patch_def io_then_def io_bind_def statusmsg_def call_def popen_def
        io_return_def io_raise_def)

lemma foreach_apply_patch_calls:
  "\<exists>n. calls (snd (foreach ps (apply_patch E) w)) = calls w @ map patch_cmd (take n ps)
       \<and> (fst (foreach ps (apply_patch E) w) = Inr () \<longrightarrow> n = length ps)"
proof (induction ps arbitrary: w)
  case Nil
  then show ?case by (simp add: io_return_def)
next
  case (Cons p ps)
  from apply_patch_cases [of E p w] consider
      (unstarted) e w' where "apply_patch E p w = (Inl e, w')" "calls w' = calls w"
    | (failed) e w' where "apply_patch E p w = (Inl e, w')" "calls w' = calls w @ [patch_cmd p]"
    | (applied) w' where "apply_patch E p w = (Inr (), w')" "calls w' = calls w @ [patch_cmd p]"
    by blast
  then show ?case
  proof cases
    case unstarted
    then have "calls (snd (foreach (p # ps) (apply_patch E) w)) = calls w @ map patch_cmd (take 0 (p # ps))
       \<and> (fst (foreach (p # ps) (apply_patch E) w) = Inr () \<longrightarrow> 0 = length (p # ps))"
      by (simp add: io_then_Inl)
    then show ?thesis by blast
  next
    case failed
    then have "calls (snd (foreach (p # ps) (apply_patch E) w)) = calls w @ map patch_cmd (take 1 (p # ps))
       \<and> (fst (foreach (p # ps) (apply_patch E) w) = Inr () \<longrightarrow> 1 = length (p # ps))"
      by (simp add: io_then_Inl)
    then show ?thesis by blast
  next
    case applied
    from Cons.IH [of w'] obtain n where
      n: "calls (snd (foreach ps (apply_patch E) w')) = calls w' @ map patch_cmd (take n ps)"
        "fst (foreach ps (apply_patch E) w') = Inr () \<longrightarrow> n = length ps"
      by blast
    from applied n have
      "calls (snd (foreach (p # ps) (apply_patch E) w)) = calls w @ map patch_cmd (take (Suc n) (p # ps))
       \<and> (fst (foreach (p # ps) (apply_patch E) w) = Inr () \<longrightarrow> Suc n = length (p # ps))"
      by (simp add: io_then_Inr)
    then show ?thesis by blast
  qed
qed

lemma abspath_world: "abspath p w = (r, w') \<Longrightarrow> w' = w"
  by (auto simp: abspath_def io_return_def io_bind_def getcwd_def split: if_splits)

lemma chdir_calls: "chdir p w = (r, w') \<Longrightarrow> calls w' = calls w \<and> root w' = root w \<and> log w' = log w"
  by (auto simp: chdir_def split: option.splits if_splits)

lemma getcwd_world: "getcwd w = (r, w') \<Longrightarrow> w' = w"
  by (auto simp: getcwd_def split: if_splits)

lemma patch_installed_packages_calls:
  assumes "abspath_each patch_dirs w = (Inr patch_dirs_abs, w)"
    and "getcwd w = (Inr oldwd, w)"
    and "chdir stage_dir_abs w = (Inr (), w1)"
  shows "\<exists>n. calls (snd (patch_installed_packages E stage_dir_abs patch_dirs dver w))
            = calls w @ map patch_cmd (take n (sort_cmp cmp_basename (collect_patches E patch_dirs_abs w1)))
          \<and> (fst (patch_installed_packages E stage_dir_abs patch_dirs dver w) = Inr ()
               \<longrightarrow> n = length (collect_patches E patch_dirs_abs w1))"
proof -
  let ?ps = "sort_cmp cmp_basename (collect_patches E patch_dirs_abs w1)"
  let ?loop = "foreach ?ps (apply_patch E) w1"
  from foreach_apply_patch_calls [of ?ps E w1] obtain n where
    n: "calls (snd ?loop) = calls w1 @ map patch_cmd (take n ?ps)"
       "fst ?loop = Inr () \<longrightarrow> n = length ?ps"
    by blast
  obtain r w2 where loop: "?loop = (r, w2)"
    by (cases ?loop)
  obtain r' w3 where restore: "chdir oldwd w2 = (r', w3)"
    by (cases "chdir oldwd w2")
  have run: "patch_installed_packages E stage_dir_abs patch_dirs dver w =
          (case r' of Inl e \<Rightarrow> (Inl e, w3) | Inr u \<Rightarrow> (r, w3))"
    using assms loop restore
    by (simp add: patch_installed_packages_def io_bind_def io_then_def try_finally_def
          split: sum.splits)
  have c1: "calls w1 = calls w"
    using chdir_calls [OF assms(3)] by simp
  have c3: "calls w3 = calls w2"
    using chdir_calls [OF restore] by simp
  have len: "length ?ps = length (collect_patches E patch_dirs_abs w1)"
    by (simp add: sort_cmp_basename)
  from run n loop c1 c3 len
  have "calls (snd (patch_installed_packages E stage_dir_abs patch_dirs dver w))
            = calls w @ map patch_cmd (take n ?ps)
          \<and> (fst (patch_installed_packages E stage_dir_abs patch_dirs dver w) = Inr ()
               \<longrightarrow> n = length (collect_patches E patch_dirs_abs w1))"
    by (auto split: sum.splits)
  then show ?thesis by blast
qed

section \<open>Reading back a new file\<close>

lemma resolve_after_write:
  assumes "resolve fuel follow True r cur cs = Some loc"
    and "\<And>q. kind_at r' q = (if q = loc then Some KFile else kind_at r q)"
    and "kind_at r loc = Some KFile \<or> kind_at r loc = None"
  shows "resolve fuel follow False r' cur cs = Some loc"
  using assms
proof (induction fuel follow True r cur cs rule: resolve.induct)
  case (1 fuel follow r cur)
  then show ?case by simp
next
  case (2 fuel follow r cur c cs)
  note res = "2.prems"(1)
  note k = "2.prems"(2) [of "cur @ [c]"]
  note at_loc = "2.prems"(3)
  show ?case
  proof (cases "c = [] \<or> c = ''.'' \<or> c = ''..''")
    case True
    with res "2.hyps"(1,2) "2.prems"(2,3) show ?thesis
      by (auto split: if_splits)
  next
    case False
    show ?thesis
    proof (cases "kind_at r (cur @ [c])")
      case None
      with res False have "cs = []" "loc = cur @ [c]"
        by (auto split: if_splits)
      with False k show ?thesis by simp
    next
      case (Some kd)
      show ?thesis
      proof (cases kd)
        case KFile
        with Some res False have "cs = []" "loc = cur @ [c]"
          by (auto split: if_splits)
        with False k show ?thesis by simp
      next
        case KDir
        with Some at_loc have "cur @ [c] \<noteq> loc" by auto
        with k Some KDir have "kind_at r' (cur @ [c]) = Some KDir" by simp
        with res "2.hyps"(4) [OF _ _ Some KDir _ "2.prems"(2,3)] False Some KDir show ?thesis
          by simp
      next
        case (KLink t)
        with Some at_loc have ne: "cur @ [c] \<noteq> loc" by auto
        with k Some KLink have k': "kind_at r' (cur @ [c]) = Some (KLink t)" by simp
        show ?thesis
        proof (cases "\<not> follow \<and> cs = []")
          case True
          with res False Some KLink ne show ?thesis by auto
        next
          case nf: False
          show ?thesis
          proof (cases fuel)
            case 0
            with res False Some KLink nf show ?thesis by auto
          next
            case (Suc f)
            show ?thesis
            proof (cases "t = []")
              case True
              with res False Some KLink nf Suc show ?thesis by auto
            next
              case tne: False
              from res False Some KLink nf Suc tne
              have "resolve f follow True r (link_base t cur) (split_on slash [] t @ cs) = Some loc"
                by auto
              then have "resolve f follow False r' (link_base t cur) (split_on slash [] t @ cs) = Some loc"
                using "2.hyps"(3) [OF _ _ Some KLink nf Suc tne _ "2.prems"(2,3)] False by blast
              with False k' nf Suc tne show ?thesis by auto
            qed
          qed
        qed
      qed
    qed
  qed
qed

lemma write_file_Inr:
  assumes "write_file p s w = (Inr (), w')"
  obtains loc where "locate True True w p = Some loc"
    and "kind_at (root w) loc = Some KFile \<or> (kind_at (root w) loc = None \<and> parent_is_dir (root w) loc)"
    and "w' = w\<lparr>root := update loc (Some (File s)) (root w)\<rparr>"
  using assms
  by (auto simp: write_file_def split: option.splits kind.splits if_splits)

lemma write_file_read_back:
  assumes "write_file p s w = (Inr (), w')"
  shows "read_file p w' = (Inr s, w')"
proof -
  from assms obtain loc where loc: "locate True True w p = Some loc"
    and k: "kind_at (root w) loc = Some KFile \<or> (kind_at (root w) loc = None \<and> parent_is_dir (root w) loc)"
    and w': "w' = w\<lparr>root := update loc (Some (File s)) (root w)\<rparr>"
    by (rule write_file_Inr)
  let ?r = "update loc (Some (File s)) (root w)"
  have ka: "kind_at ?r q = (if q = loc then Some KFile else kind_at (root w) q)" for q
    using k by (rule kind_at_write)
  have k2: "kind_at (root w) loc = Some KFile \<or> kind_at (root w) loc = None"
    using k by auto
  have pne: "p \<noteq> []"
    using loc by (auto simp: locate_def split: if_splits)
  have "locate True False w' p = Some loc"
  proof (cases "isabs p")
    case True
    with loc pne have "resolve 40 True True (root w) [] (split_on slash [] p) = Some loc"
      by (simp add: locate_def)
    from resolve_after_write [OF this ka k2] True pne w' show ?thesis
      by (simp add: locate_def)
  next
    case False
    with loc pne have d: "kind_at (root w) (cwd w) = Some KDir"
      and "resolve 40 True True (root w) (cwd w) (split_on slash [] p) = Some loc"
      by (auto simp: locate_def split: if_splits)
    from resolve_after_write [OF this(2) ka k2]
    have "resolve 40 True False ?r (cwd w) (split_on slash [] p) = Some loc" .
    moreover from d k2 ka [of "cwd w"] have "kind_at ?r (cwd w) = Some KDir"
      by auto
    ultimately show ?thesis
      using False pne w' by (simp add: locate_def)
  qed
  moreover have "lookup (root w') loc = Some (File s)"
    using lookup_write [OF k, of s] w' by simp
  ultimately show ?thesis
    by (rule read_file_located)
qed

section \<open>The package list\<close>

lemma split_ws_tokens:
  "set cur \<inter> set whitespace = {} \<Longrightarrow> t \<in> set (split_ws cur s) \<Longrightarrow> set t \<inter> set whitespace = {}"
proof (induction s arbitrary: cur)
  case Nil
  then show ?case by (auto split: if_splits)
next
  case (Cons c s)
  show ?case
  proof (cases "c \<in> set whitespace")
    case True
    with Cons.prems Cons.IH [of "[]"] show ?thesis
      by (auto split: if_splits)
  next
    case False
    with Cons.prems have "set (cur @ [c]) \<inter> set whitespace = {}" by auto
    from Cons.IH [OF this] Cons.prems(2) False show ?thesis by simp
  qed
qed

lemma split_token_no_nl: "t \<in> set (split s) \<Longrightarrow> nl \<notin> set t"
  using split_ws_tokens [of "[]" t s] by (auto simp: split_def whitespace_def nl_def)

lemma file_lines_line: "nl \<notin> set p \<Longrightarrow> file_lines cur (p @ nl # rest) = (cur @ p @ [nl]) # file_lines [] rest"
  by (induction p arbitrary: cur) auto

lemma file_lines_join:
  "xs \<noteq> [] \<Longrightarrow> (\<And>x. x \<in> set xs \<Longrightarrow> nl \<notin> set x) \<Longrightarrow>
   file_lines [] (join_with [nl] xs @ [nl]) = map (\<lambda>x. x @ [nl]) xs"
proof (induction xs)
  case Nil
  then show ?case by simp
next
  case (Cons x xs)
  show ?case
  proof (cases xs)
    case Nil
    with Cons.prems show ?thesis
      using file_lines_line [of x "[]" "[]"] by simp
  next
    case (Cons y ys)
    with Cons.prems Cons.IH show ?thesis
      using file_lines_line [of x "[]" "join_with [nl] (y # ys) @ [nl]"] by simp
  qed
qed

lemma write_package_list_file_ok:
  assumes "exec E (rpm_qa_cmd stage_dir_abs) (cwd w) (root w) = Some (0, out, fs)"
  shows "write_package_list_file E stage_dir_abs exclude_list w =
           write_file (manifest_path stage_dir_abs)
             (manifest_text (set (split (strip out))) (set (exclude_list_arg exclude_list)))
             (w\<lparr>root := fs, calls := calls w @ [rpm_qa_cmd stage_dir_abs]\<rparr>)"
  using popen_apply [OF assms]
  by (simp add: write_package_list_file_def io_bind_def manifest_path_def manifest_text_def)

section \<open>Going back to a directory\<close>

lemma lookup_append:
  "lookup r (p @ q) = (case lookup r p of None \<Rightarrow> None | Some n \<Rightarrow> lookup n q)"
proof (induction p arbitrary: r)
  case Nil
  then show ?case by simp
next
  case (Cons c p)
  then show ?case
    by (cases r) (auto split: option.splits)
qed

lemma lookup_below_Dir: "lookup n cs = Some (Dir es) \<Longrightarrow> cs \<noteq> [] \<Longrightarrow> \<exists>es'. n = Dir es'"
  by (cases n; cases cs) auto

lemma kind_at_prefix_Dir:
  assumes "kind_at r (cur @ c # cs) = Some KDir"
  shows "kind_at r (cur @ [c]) = Some KDir"
proof -
  from assms obtain es where es: "lookup r ((cur @ [c]) @ cs) = Some (Dir es)"
    by (cases "lookup r (cur @ c # cs)") (auto simp: kind_at_def elim: kind_of.elims)
  then obtain n where n: "lookup r (cur @ [c]) = Some n" and below: "lookup n cs = Some (Dir es)"
    by (simp only: lookup_append split: option.splits) auto
  have "\<exists>es'. n = Dir es'"
  proof (cases "cs = []")
    case True
    with below show ?thesis by simp
  next
    case False
    with below show ?thesis by (rule lookup_below_Dir)
  qed
  with n show ?thesis
    by (auto simp: kind_at_def)
qed

lemma resolve_canonical:
  "list_all valid_name cs \<Longrightarrow> kind_at r (cur @ cs) = Some KDir \<Longrightarrow>
   resolve fuel follow create r cur cs = Some (cur @ cs)"
proof (induction cs arbitrary: cur)
  case Nil
  then show ?case by simp
next
  case (Cons c cs)
  from Cons.prems(2) have k: "kind_at r (cur @ [c]) = Some KDir"
    by (rule kind_at_prefix_Dir)
  from Cons.prems(1) have vc: "valid_name c" and rest: "list_all valid_name cs"
    by simp_all
  from vc have c: "c \<noteq> []" "c \<noteq> ''.''" "c \<noteq> ''..''"
    by (simp_all add: valid_name_def)
  from Cons.prems(2) have "kind_at r ((cur @ [c]) @ cs) = Some KDir"
    by simp
  from Cons.IH [OF rest this] k c show ?case
    by simp
qed

lemma split_on_no_sep: "d \<notin> set x \<Longrightarrow> split_on d acc x = [acc @ x]"
  by (induction x arbitrary: acc) auto

lemma split_on_sep: "d \<notin> set x \<Longrightarrow> split_on d acc (x @ d # rest) = (acc @ x) # split_on d [] rest"
  by (induction x arbitrary: acc) auto

lemma split_join:
  "cs \<noteq> [] \<Longrightarrow> list_all valid_name cs \<Longrightarrow> split_on slash [] (join_with [slash] cs) = cs"
proof (induction cs)
  case Nil
  then show ?case by simp
next
  case (Cons c cs)
  from Cons.prems(2) have c: "slash \<notin> set c"
    by (simp add: valid_name_def)
  show ?case
  proof (cases cs)
    case Nil
    with c show ?thesis
      by (simp add: split_on_no_sep)
  next
    case (Cons y ys)
    with Cons.IH Cons.prems(2) have "split_on slash [] (join_with [slash] cs) = cs"
      by simp
    with Cons c show ?thesis
      using split_on_sep [of slash c "[]" "join_with [slash] (y # ys)"] by simp
  qed
qed

lemma locate_cwd_text:
  assumes "list_all valid_name d" and "kind_at (root w) d = Some KDir"
  shows "locate True False w (cwd_text d) = Some d"
proof -
  have abs: "isabs (cwd_text d)" and ne: "cwd_text d \<noteq> []"
    by (simp_all add: cwd_text_def isabs_def startswith_def)
  have sl: "''/'' = [slash]"
    by (simp add: slash_def)
  have "resolve 40 True False (root w) [] (split_on slash [] (cwd_text d)) = Some d"
  proof (cases "d = []")
    case True
    then show ?thesis
      by (simp add: cwd_text_def slash_def)
  next
    case False
    from split_join [OF False assms(1)]
    have "split_on slash [] (cwd_text d) = [] # d"
      by (simp add: cwd_text_def sl)
    with resolve_canonical [OF assms(1), of "root w" "[]" 40 True False] assms(2) show ?thesis
      by simp
  qed
  with abs ne show ?thesis
    by (simp add: locate_def)
qed

lemma chdir_cwd_text:
  assumes "list_all valid_name d" and "kind_at (root w) d = Some KDir"
  shows "chdir (cwd_text d) w = (Inr (), w\<lparr>cwd := d\<rparr>)"
  using locate_cwd_text [OF assms] assms(2) by (simp add: chdir_def)

section \<open>What keeps a directory\<close>

lemma dir_keptD:
  "dir_kept d m \<Longrightarrow> kind_at (root w) d = Some KDir \<Longrightarrow> m w = (r, w') \<Longrightarrow>
   kind_at (root w') d = Some KDir"
  by (auto simp: dir_kept_def)

lemma dir_kept_return: "dir_kept d (io_return x)"
  by (simp add: dir_kept_def io_return_def)

lemma dir_kept_raise: "dir_kept d (io_raise e)"
  by (simp add: dir_kept_def io_raise_def)

lemma dir_kept_bind: "dir_kept d m \<Longrightarrow> (\<And>x. dir_kept d (f x)) \<Longrightarrow> dir_kept d (io_bind m f)"
  unfolding dir_kept_def io_bind_def
proof (intro allI impI)
  fix w :: world
  assume m: "\<forall>w. kind_at (root w) d = Some KDir \<longrightarrow> kind_at (root (snd (m w))) d = Some KDir"
    and f: "\<And>x. \<forall>w. kind_at (root w) d = Some KDir \<longrightarrow> kind_at (root (snd (f x w))) d = Some KDir"
    and w: "kind_at (root w) d = Some KDir"
  obtain r w' where mw: "m w = (r, w')" by (cases "m w")
  with m w have "kind_at (root w') d = Some KDir" by fastforce
  with f mw show "kind_at (root (snd (case m w of (Inl e, w') \<Rightarrow> (Inl e, w') | (Inr x, w') \<Rightarrow> f x w'))) d
      = Some KDir"
    by (cases r) auto
qed

lemma dir_kept_then: "dir_kept d m \<Longrightarrow> dir_kept d n \<Longrightarrow> dir_kept d (io_then m n)"
  by (simp add: io_then_def dir_kept_bind)

lemma dir_kept_foreach: "(\<And>x. dir_kept d (body x)) \<Longrightarrow> dir_kept d (foreach xs body)"
  by (induction xs) (simp_all add: dir_kept_return dir_kept_then)

lemma dir_kept_statusmsg: "dir_kept d (statusmsg m)"
  by (simp add: dir_kept_def statusmsg_def)

lemma dir_kept_chdir: "dir_kept d (chdir p)"
  by (auto simp: dir_kept_def chdir_def split: option.splits)

lemma dir_kept_popen: "tools_keep_dir E d \<Longrightarrow> dir_kept d (popen E argv)"
  unfolding dir_kept_def tools_keep_dir_def popen_def
  by (auto split: option.splits)

lemma dir_kept_call: "tools_keep_dir E d \<Longrightarrow> dir_kept d (call E argv)"
  by (simp add: call_def dir_kept_bind dir_kept_popen dir_kept_return)

lemma dir_kept_check_call: "tools_keep_dir E d \<Longrightarrow> dir_kept d (check_call E argv)"
  by (simp add: check_call_def dir_kept_bind dir_kept_call dir_kept_return dir_kept_raise)

lemma dir_kept_safe_makedirs: "tools_keep_dir E d \<Longrightarrow> dir_kept d (collaborator (safe_makedirs E p))"
  unfolding dir_kept_def tools_keep_dir_def collaborator_def
  by (auto split: prod.splits option.splits)

lemma dir_kept_read_file: "dir_kept d (read_file p)"
  by (auto simp: dir_kept_def read_file_def split: option.splits node.splits)

lemma dir_kept_write_file: "dir_kept d (write_file p s)"
  unfolding dir_kept_def
proof (intro allI impI)
  fix w :: world
  assume d: "kind_at (root w) d = Some KDir"
  obtain r w' where run: "write_file p s w = (r, w')"
    by (cases "write_file p s w")
  show "kind_at (root (snd (write_file p s w))) d = Some KDir"
  proof (cases r)
    case (Inl e)
    with run have "w' = w"
      by (auto simp: write_file_def split: option.splits kind.splits if_splits)
    with run d show ?thesis by simp
  next
    case (Inr u)
    with run obtain loc where
      k: "kind_at (root w) loc = Some KFile \<or> (kind_at (root w) loc = None \<and> parent_is_dir (root w) loc)"
      and w': "w' = w\<lparr>root := update loc (Some (File s)) (root w)\<rparr>"
      by (auto elim: write_file_Inr)
    from k d have "d \<noteq> loc" by auto
    with kind_at_write [OF k, of s d] d w' run show ?thesis by simp
  qed
qed

lemma dir_kept_copyfile: "dir_kept d (copyfile src dst)"
proof -
  have "dir_kept d (io_bind (read_file src) (\<lambda>s. write_file dst s))"
    by (intro dir_kept_bind dir_kept_read_file dir_kept_write_file)
  then show ?thesis
    by (simp add: dir_kept_def copyfile_def)
qed

lemma dir_kept_copy: "dir_kept d (copy src dst)"
  using dir_kept_copyfile [of d src] by (simp add: dir_kept_def copy_def Let_def)

lemma dir_kept_apply_patch: "tools_keep_dir E d \<Longrightarrow> dir_kept d (apply_patch E p)"
  by (simp add: apply_patch_def dir_kept_then dir_kept_bind dir_kept_statusmsg dir_kept_call
        dir_kept_return dir_kept_raise)

section \<open>The working directory\<close>

lemma abspath_each_world: "abspath_each xs w = (r, w') \<Longrightarrow> w' = w"
proof (induction xs arbitrary: r w')
  case Nil
  then show ?case by (simp add: io_return_def)
next
  case (Cons x xs)
  obtain a w1 where a: "abspath x w = (a, w1)" by (cases "abspath x w")
  then have w1: "w1 = w" by (rule abspath_world)
  obtain b w2 where b: "abspath_each xs w = (b, w2)" by (cases "abspath_each xs w")
  then have w2: "w2 = w" by (rule Cons.IH)
  from Cons.prems a b w1 w2 show ?case
    by (cases a; cases b) (auto simp: io_bind_def io_return_def)
qed

lemma getcwd_Inr:
  "getcwd w = (Inr oldwd, w') \<Longrightarrow>
   oldwd = cwd_text (cwd w) \<and> kind_at (root w) (cwd w) = Some KDir"
  by (auto simp: getcwd_def split: if_splits)

lemma cwd_rmtree: "cwd (snd (rmtree p w)) = cwd w"
  by (auto simp: rmtree_def split: option.splits kind.splits)

lemma try_finally_restores:
  assumes valid: "list_all valid_name d"
    and kept: "dir_kept d body"
    and dir: "kind_at (root w) d = Some KDir"
  shows "cwd (snd (try_finally body (chdir (cwd_text d)) w)) = d"
    and "cwd (snd (try_finally body (io_then (chdir (cwd_text d)) (rmtree p)) w)) = d"
proof -
  obtain r w' where body: "body w = (r, w')" by (cases "body w")
  from dir_keptD [OF kept dir body] have "kind_at (root w') d = Some KDir" .
  from chdir_cwd_text [OF valid this] have ch: "chdir (cwd_text d) w' = (Inr (), w'\<lparr>cwd := d\<rparr>)" .
  with body show "cwd (snd (try_finally body (chdir (cwd_text d)) w)) = d"
    by (simp add: try_finally_def)
  obtain r2 w2 where rm: "rmtree p (w'\<lparr>cwd := d\<rparr>) = (r2, w2)"
    by (cases "rmtree p (w'\<lparr>cwd := d\<rparr>)")
  with cwd_rmtree [of p "w'\<lparr>cwd := d\<rparr>"] have "cwd w2 = d" by simp
  with body ch rm show "cwd (snd (try_finally body (io_then (chdir (cwd_text d)) (rmtree p)) w)) = d"
    by (cases r2) (simp_all add: try_finally_def io_then_def io_bind_def)
qed

lemma patch_installed_packages_cwd:
  assumes "list_all valid_name (cwd w)" and "tools_keep_dir E (cwd w)"
  shows "cwd (snd (patch_installed_packages E stage_dir_abs patch_dirs dver w)) = cwd w"
proof -
  obtain a w1 where a: "abspath_each patch_dirs w = (a, w1)" by (cases "abspath_each patch_dirs w")
  then have w1: "w1 = w" by (rule abspath_each_world)
  show ?thesis
  proof (cases a)
    case (Inl e)
    with a w1 show ?thesis
      by (simp add: patch_installed_packages_def io_bind_def)
  next
    case (Inr patch_dirs_abs)
    obtain g w2 where g: "getcwd w = (g, w2)" by (cases "getcwd w")
    then have w2: "w2 = w" by (rule getcwd_world)
    show ?thesis
    proof (cases g)
      case (Inl e)
      with a w1 Inr g w2 show ?thesis
        by (simp add: patch_installed_packages_def io_bind_def)
    next
      case old: (Inr oldwd)
      with g have oldwd: "oldwd = cwd_text (cwd w)" and dir: "kind_at (root w) (cwd w) = Some KDir"
        using getcwd_Inr by blast+
      let ?body = "io_then (chdir stage_dir_abs)
            (\<lambda>w. foreach (sort_cmp cmp_basename (collect_patches E patch_dirs_abs w)) (apply_patch E) w)"
      have loop: "dir_kept (cwd w) (\<lambda>w. foreach (sort_cmp cmp_basename (collect_patches E patch_dirs_abs w))
              (apply_patch E) w)"
        using dir_kept_foreach [of "cwd w" "apply_patch E"] dir_kept_apply_patch [OF assms(2)]
        by (simp add: dir_kept_def)
      have "dir_kept (cwd w) ?body"
        by (intro dir_kept_then dir_kept_chdir loop)
      from try_finally_restores(1) [OF assms(1) this dir]
      have "cwd (snd (try_finally ?body (chdir (cwd_text (cwd w))) w)) = cwd w" .
      with a w1 Inr g w2 old oldwd show ?thesis
        by (simp add: patch_installed_packages_def io_bind_def)
    qed
  qed
qed

lemma run_mkdtemp_cwd: "run_mkdtemp E w = (r, w') \<Longrightarrow> cwd w' = cwd w"
  by (auto simp: run_mkdtemp_def split: prod.splits)

lemma remove_empty_dirs_from_tarball_cwd:
  assumes "list_all valid_name (cwd w)" and "tools_keep_dir E (cwd w)"
  shows "cwd (snd (remove_empty_dirs_from_tarball E tarball topdir recreate_dirs w)) = cwd w"
proof -
  obtain a w1 where a: "abspath tarball w = (a, w1)" by (cases "abspath tarball w")
  then have w1: "w1 = w" by (rule abspath_world)
  show ?thesis
  proof (cases a)
    case (Inl e)
    with a w1 show ?thesis
      by (simp add: remove_empty_dirs_from_tarball_def io_bind_def)
  next
    case (Inr tarball_abs)
    obtain t w2 where t: "run_mkdtemp E w = (t, w2)" by (cases "run_mkdtemp E w")
    then have c2: "cwd w2 = cwd w" by (rule run_mkdtemp_cwd)
    show ?thesis
    proof (cases t)
      case (Inl e)
      with a w1 Inr t c2 show ?thesis
        by (simp add: remove_empty_dirs_from_tarball_def io_bind_def Let_def)
    next
      case tmp: (Inr extract_dir)
      obtain g w3 where g: "getcwd w2 = (g, w3)" by (cases "getcwd w2")
      then have w3: "w3 = w2" by (rule getcwd_world)
      show ?thesis
      proof (cases g)
        case (Inl e)
        with a w1 Inr t tmp g w3 c2 show ?thesis
          by (simp add: remove_empty_dirs_from_tarball_def io_bind_def Let_def)
      next
        case old: (Inr oldcwd)
        with g c2 have oldcwd: "oldcwd = cwd_text (cwd w)"
          and dir: "kind_at (root w2) (cwd w) = Some KDir"
          using getcwd_Inr [of w2 oldcwd w3] by auto
        let ?body = "io_then (chdir extract_dir)
           (io_then (check_call E [''tar'', ''-xzf'', tarball_abs])
           (io_then (call E [''find'', topdir, ''-type'', ''d'', ''-empty'', ''-delete''])
           (io_then (foreach recreate_dirs (\<lambda>rdir.
                       collaborator (safe_makedirs E (path_join topdir (lstrip ''/'' rdir)))))
           (io_then (check_call E [''tar'', ''-czf'', basename tarball, topdir])
                    (copy (basename tarball) tarball_abs)))))"
        have "dir_kept (cwd w) ?body"
          by (intro dir_kept_then dir_kept_chdir dir_kept_check_call dir_kept_call dir_kept_foreach
                dir_kept_safe_makedirs dir_kept_copy assms(2))
        from try_finally_restores(2) [OF assms(1) this dir]
        have "cwd (snd (try_finally ?body
                (io_then (chdir (cwd_text (cwd w))) (rmtree extract_dir)) w2)) = cwd w" .
        with a w1 Inr t tmp g w3 old oldcwd show ?thesis
          by (simp add: remove_empty_dirs_from_tarball_def io_bind_def Let_def)
      qed
    qed
  qed
qed

section \<open>The claims\<close>

text \<open>
  C4. The version-string rewrite is idempotent: running \<open>fix_osg_version\<close> twice
  leaves the world that running it once leaves, for every content of the version file
  and every release number (and when the first run raises, so does the pair). The
  spec's example: \<open>"3.4.5\\n"\<close> with release 2 becomes \<open>"3.4.5-tarball-2\\n"\<close>, and
  that text is left as it is.
\<close>

theorem fix_osg_version_idempotent:
  "io_then (fix_osg_version stage_dir_abs relnum) (fix_osg_version stage_dir_abs relnum) w
     = fix_osg_version stage_dir_abs relnum w
   \<and> new_version_str 2 ''3.4.5\<newline>'' = ''3.4.5-tarball-2\<newline>''
   \<and> new_version_str 2 ''3.4.5-tarball-2\<newline>'' = ''3.4.5-tarball-2\<newline>''"
proof (intro conjI)
  show "io_then (fix_osg_version stage_dir_abs relnum) (fix_osg_version stage_dir_abs relnum) w
     = fix_osg_version stage_dir_abs relnum w"
    by (rule fix_osg_version_twice)
  show "new_version_str 2 ''3.4.5\<newline>'' = ''3.4.5-tarball-2\<newline>''"
    by code_simp
  show "new_version_str 2 ''3.4.5-tarball-2\<newline>'' = ''3.4.5-tarball-2\<newline>''"
    by code_simp
qed

theorem fix_osg_version_idempotent_witness:
  "fix_osg_version ''/stage'' 2 version_world = (Inr (), version_world')
   \<and> io_then (fix_osg_version ''/stage'' 2) (fix_osg_version ''/stage'' 2) version_world
       = (Inr (), version_world')"
proof -
  have once: "fix_osg_version ''/stage'' 2 version_world = (Inr (), version_world')"
    by code_simp
  have "io_then (fix_osg_version ''/stage'' 2) (fix_osg_version ''/stage'' 2) version_world
          = fix_osg_version ''/stage'' 2 version_world"
    using fix_osg_version_idempotent [of "''/stage''" 2 version_world] by (rule conjunct1)
  with once show ?thesis by simp
qed

text \<open>
  C10 (as amended). Of a version file that holds a first line \<open>l\<close>, its newline, and
  anything after it, \<open>fix_osg_version\<close> reads the first line only; when that line
  starts with a digit or a dot, the file is rewritten to the (possibly suffixed) first
  line alone, one line, and nothing is logged about the lines that are gone.
\<close>

theorem fix_osg_version_first_line_only:
  assumes "read_file (osg_version_path stage_dir_abs) w = (Inr (l @ [nl] @ rest), w)"
    and "nl \<notin> set l"
    and "re_match_version l"
  shows "\<exists>w'. fix_osg_version stage_dir_abs relnum w = (Inr (), w')
           \<and> read_file (osg_version_path stage_dir_abs) w'
               = (Inr (new_version_str relnum (l @ [nl])), w')
           \<and> file_lines [] (new_version_str relnum (l @ [nl])) = [new_version_str relnum (l @ [nl])]
           \<and> log w' = log w"
proof -
  let ?p = "osg_version_path stage_dir_abs"
  let ?v = "l @ [nl]"
  let ?new = "new_version_str relnum ?v"
  from assms(1) obtain loc where loc: "locate True False w ?p = Some loc"
    and f: "lookup (root w) loc = Some (File (l @ [nl] @ rest))"
    using read_file_Inr by blast
  have rl: "readline (l @ [nl] @ rest) = ?v"
    using assms(2) by (rule readline_first)
  have ol: "one_line ?v"
    using one_line_readline [of "l @ [nl] @ rest"] rl by simp
  from assms(3) have m: "re_match_version ?v"
    by (cases l) (auto simp: re_match_version_def split: if_splits)
  let ?w' = "w\<lparr>root := update loc (Some (File ?new)) (root w)\<rparr>"
  have "fix_osg_version stage_dir_abs relnum w = (Inr (), ?w')"
    using fix_osg_version_run [OF loc f, of relnum] rl m by simp
  moreover have "read_file ?p ?w' = (Inr ?new, ?w')"
    using loc f by (rule read_after_write_over)
  moreover have "file_lines [] ?new = [?new]"
    using file_lines_one_line [of ?new "[]"] new_version_str_one_line [OF ol, of relnum]
      new_version_str_nonempty [of ?v relnum] by simp
  moreover have "log ?w' = log w"
    by simp
  ultimately show ?thesis
    by blast
qed

theorem fix_osg_version_first_line_only_witness:
  "read_file (osg_version_path ''/stage'') two_line_world
     = (Inr (''3.4.5'' @ [nl] @ ''built by hand\<newline>''), two_line_world)
   \<and> nl \<notin> set ''3.4.5'' \<and> re_match_version ''3.4.5''
   \<and> (\<exists>w'. fix_osg_version ''/stage'' 2 two_line_world = (Inr (), w')
           \<and> read_file (osg_version_path ''/stage'') w' = (Inr ''3.4.5-tarball-2\<newline>'', w'))"
proof -
  have a: "read_file (osg_version_path ''/stage'') two_line_world
     = (Inr (''3.4.5'' @ [nl] @ ''built by hand\<newline>''), two_line_world)"
    by code_simp
  have b: "nl \<notin> set ''3.4.5''"
    by code_simp
  have c: "re_match_version ''3.4.5''"
    by code_simp
  have d: "new_version_str 2 (''3.4.5'' @ [nl]) = ''3.4.5-tarball-2\<newline>''"
    by code_simp
  from fix_osg_version_first_line_only [OF a b c, of 2] d
  have "\<exists>w'. fix_osg_version ''/stage'' 2 two_line_world = (Inr (), w')
           \<and> read_file (osg_version_path ''/stage'') w' = (Inr ''3.4.5-tarball-2\<newline>'', w')"
    by auto
  with a b c show ?thesis by blast
qed

text \<open>The claim as stated, for every version file of more than one line, fails where
  the first line does not start with a digit or a dot: \<open>fix_osg_version\<close> raises
  \<open>Error\<close> before it writes, and the file keeps all its lines.\<close>

theorem fix_osg_version_keeps_lines_on_error:
  "fst (read_file (osg_version_path ''/stage'') unversioned_world)
     = Inr ''OSG 3.4.5\<newline>built by hand\<newline>''
   \<and> fix_osg_version ''/stage'' 2 unversioned_world
       = (Inl (Error (repr ''/stage/etc/osg-version'' @ '' does not contain version'')),
          unversioned_world)"
  by code_simp

text \<open>
  C2 (as amended). \<open>make_stage2_tarball\<close> ends in one of three ways: it returns \<open>True\<close>;
  it returns \<open>None\<close> (it has no \<open>return False\<close>: the handler runs off the end of the
  function), and then the last thing it logged is the error message; or an exception
  leaves it, and that exception is not an \<open>Error\<close>. In terms of the \<open>try\<close> block: when
  the block finishes, it has answered \<open>True\<close> and so does the function; when a step of
  it raises \<open>Error(m)\<close>, the function logs \<open>m\<close> with \<open>errormsg\<close> and returns \<open>None\<close>;
  any other exception leaves the function as it is.
\<close>

theorem make_stage2_tarball_outcome:
  "(case make_stage2_tarball E stage_dir packages tarball patch_dirs post_scripts_dir repofile
           dver basearch relnum extra_repos w of
      (Inr v, w') \<Rightarrow>
         v = PyBool True \<or> (v = PyNone \<and> (\<exists>m. log w' \<noteq> [] \<and> last (log w') = ErrorMsg m))
    | (Inl e, w') \<Rightarrow> \<not> is_Error e)
   \<and> (\<forall>stage_dir_abs w1 r w2.
         abspath stage_dir (start_msg stage_dir dver basearch w) = (Inr stage_dir_abs, w1) \<longrightarrow>
         stage2_try_block E stage_dir stage_dir_abs packages tarball patch_dirs post_scripts_dir
             repofile dver basearch relnum extra_repos w1 = (r, w2) \<longrightarrow>
         (\<forall>v. r = Inr v \<longrightarrow> v = PyBool True
               \<and> make_stage2_tarball E stage_dir packages tarball patch_dirs post_scripts_dir
                    repofile dver basearch relnum extra_repos w = (Inr (PyBool True), w2))
         \<and> (\<forall>m. r = Inl (Error m) \<longrightarrow>
               make_stage2_tarball E stage_dir packages tarball patch_dirs post_scripts_dir
                    repofile dver basearch relnum extra_repos w
                 = (Inr PyNone, w2\<lparr>log := log w2 @ [ErrorMsg m]\<rparr>))
         \<and> (\<forall>e. r = Inl e \<longrightarrow> \<not> is_Error e \<longrightarrow>
               make_stage2_tarball E stage_dir packages tarball patch_dirs post_scripts_dir
                    repofile dver basearch relnum extra_repos w = (Inl e, w2)))"
proof (intro conjI allI impI)
  let ?run = "make_stage2_tarball E stage_dir packages tarball patch_dirs post_scripts_dir repofile
           dver basearch relnum extra_repos w"
  show "case ?run of
      (Inr v, w') \<Rightarrow>
         v = PyBool True \<or> (v = PyNone \<and> (\<exists>m. log w' \<noteq> [] \<and> last (log w') = ErrorMsg m))
    | (Inl e, w') \<Rightarrow> \<not> is_Error e"
  proof (cases "abspath stage_dir (start_msg stage_dir dver basearch w)")
    case (Pair a w1)
    show ?thesis
    proof (cases a)
      case (Inl e)
      with Pair make_stage2_tarball_abspath_fails [of stage_dir dver basearch w e w1]
        abspath_not_Error [of stage_dir _ e w1]
      show ?thesis by simp
    next
      case (Inr stage_dir_abs)
      obtain r w2 where blk: "stage2_try_block E stage_dir stage_dir_abs packages tarball patch_dirs
          post_scripts_dir repofile dver basearch relnum extra_repos w1 = (r, w2)"
        by (cases "stage2_try_block E stage_dir stage_dir_abs packages tarball patch_dirs
          post_scripts_dir repofile dver basearch relnum extra_repos w1")
      from Pair Inr have "abspath stage_dir (start_msg stage_dir dver basearch w) = (Inr stage_dir_abs, w1)"
        by simp
      note run = make_stage2_tarball_by_block [OF this blk]
      show ?thesis
      proof (cases r)
        case (Inr v)
        with blk have "v = PyBool True"
          by (simp add: stage2_try_block_True)
        with run Inr show ?thesis by simp
      next
        case (Inl e)
        with run show ?thesis by simp
      qed
    qed
  qed
next
  fix stage_dir_abs w1 r w2 v
  assume a: "abspath stage_dir (start_msg stage_dir dver basearch w) = (Inr stage_dir_abs, w1)"
    and b: "stage2_try_block E stage_dir stage_dir_abs packages tarball patch_dirs post_scripts_dir
             repofile dver basearch relnum extra_repos w1 = (r, w2)"
    and r: "r = Inr v"
  from b r show v: "v = PyBool True"
    by (simp add: stage2_try_block_True)
  from make_stage2_tarball_by_block [OF a b] r v
  show "make_stage2_tarball E stage_dir packages tarball patch_dirs post_scripts_dir
          repofile dver basearch relnum extra_repos w = (Inr (PyBool True), w2)"
    by simp
next
  fix stage_dir_abs w1 r w2 m
  assume a: "abspath stage_dir (start_msg stage_dir dver basearch w) = (Inr stage_dir_abs, w1)"
    and b: "stage2_try_block E stage_dir stage_dir_abs packages tarball patch_dirs post_scripts_dir
             repofile dver basearch relnum extra_repos w1 = (r, w2)"
    and r: "r = Inl (Error m)"
  from make_stage2_tarball_by_block [OF a b] r
  show "make_stage2_tarball E stage_dir packages tarball patch_dirs post_scripts_dir
          repofile dver basearch relnum extra_repos w
          = (Inr PyNone, w2\<lparr>log := log w2 @ [ErrorMsg m]\<rparr>)"
    by simp
next
  fix stage_dir_abs w1 r w2 e
  assume a: "abspath stage_dir (start_msg stage_dir dver basearch w) = (Inr stage_dir_abs, w1)"
    and b: "stage2_try_block E stage_dir stage_dir_abs packages tarball patch_dirs post_scripts_dir
             repofile dver basearch relnum extra_repos w1 = (r, w2)"
    and r: "r = Inl e" and e: "\<not> is_Error e"
  from make_stage2_tarball_by_block [OF a b] r e
  show "make_stage2_tarball E stage_dir packages tarball patch_dirs post_scripts_dir
          repofile dver basearch relnum extra_repos w = (Inl e, w2)"
    by simp
qed

theorem make_stage2_tarball_outcome_witness:
  "abspath ''/build/stage2'' (start_msg ''/build/stage2'' ''el6'' ''x86_64'' build_world)
     = (Inr ''/build/stage2'', start_msg ''/build/stage2'' ''el6'' ''x86_64'' build_world)
   \<and> (\<exists>w2. stage2_try_block failing_env ''/build/stage2'' ''/build/stage2'' (Str ''osg-client'')
          ''out.tgz'' None ''/scripts'' ''repo'' ''el6'' ''x86_64'' 0 None
          (start_msg ''/build/stage2'' ''el6'' ''x86_64'' build_world)
            = (Inl (Error (repr ''osg-client'' @ '' not installed after yum install'')), w2)
        \<and> make_stage2_tarball failing_env ''/build/stage2'' (Str ''osg-client'') ''out.tgz'' None
            ''/scripts'' ''repo'' ''el6'' ''x86_64'' 0 None build_world
            = (Inr PyNone,
               w2\<lparr>log := log w2 @ [ErrorMsg (repr ''osg-client'' @ '' not installed after yum install'')]\<rparr>))
   \<and> (\<exists>m. last (log (snd (make_stage2_tarball failing_env ''/build/stage2'' (Str ''osg-client'')
          ''out.tgz'' None ''/scripts'' ''repo'' ''el6'' ''x86_64'' 0 None build_world))) = ErrorMsg m)
   \<and> fst (make_stage2_tarball quiet_env ''/build/stage2'' (Str ''osg-client'') ''out.tgz'' None
          ''/scripts'' ''repo'' ''el6'' ''x86_64'' 0 None build_world) = Inr (PyBool True)"
proof -
  let ?w1 = "start_msg ''/build/stage2'' ''el6'' ''x86_64'' build_world"
  let ?m = "repr ''osg-client'' @ '' not installed after yum install''"
  let ?blk = "stage2_try_block failing_env ''/build/stage2'' ''/build/stage2'' (Str ''osg-client'')
          ''out.tgz'' None ''/scripts'' ''repo'' ''el6'' ''x86_64'' 0 None ?w1"
  let ?run = "make_stage2_tarball failing_env ''/build/stage2'' (Str ''osg-client'') ''out.tgz'' None
          ''/scripts'' ''repo'' ''el6'' ''x86_64'' 0 None build_world"
  note outcome = make_stage2_tarball_outcome [of failing_env "''/build/stage2''" "Str ''osg-client''"
        "''out.tgz''" None "''/scripts''" "''repo''" "''el6''" "''x86_64''" 0 None build_world]
  have a: "abspath ''/build/stage2'' ?w1 = (Inr ''/build/stage2'', ?w1)"
    by code_simp
  have "fst ?blk = Inl (Error ?m)"
    by code_simp
  then have blk: "?blk = (Inl (Error ?m), snd ?blk)"
    by (cases ?blk) simp
  from outcome a blk have run: "?run = (Inr PyNone, (snd ?blk)\<lparr>log := log (snd ?blk) @ [ErrorMsg ?m]\<rparr>)"
    by blast
  then have logged: "\<exists>m. last (log (snd ?run)) = ErrorMsg m"
    by simp
  have ok: "fst (make_stage2_tarball quiet_env ''/build/stage2'' (Str ''osg-client'') ''out.tgz'' None
          ''/scripts'' ''repo'' ''el6'' ''x86_64'' 0 None build_world) = Inr (PyBool True)"
    by code_simp
  from a blk run logged ok show ?thesis
    by blast
qed

text \<open>The claim as stated, that the failure value is the boolean \<open>False\<close>, fails where
  a package is missing after the install: the error is caught and logged, and the
  value is \<open>None\<close>.\<close>

theorem make_stage2_tarball_returns_None_not_False:
  "fst (make_stage2_tarball failing_env ''/build/stage2'' (Str ''osg-client'') ''out.tgz'' None
          ''/scripts'' ''repo'' ''el6'' ''x86_64'' 0 None build_world) = Inr PyNone
   \<and> fst (make_stage2_tarball failing_env ''/build/stage2'' (Str ''osg-client'') ''out.tgz'' None
          ''/scripts'' ''repo'' ''el6'' ''x86_64'' 0 None build_world) \<noteq> Inr (PyBool False)
   \<and> last (log (snd (make_stage2_tarball failing_env ''/build/stage2'' (Str ''osg-client'')
          ''out.tgz'' None ''/scripts'' ''repo'' ''el6'' ''x86_64'' 0 None build_world)))
       = ErrorMsg (repr ''osg-client'' @ '' not installed after yum install'')"
proof -
  have a: "fst (make_stage2_tarball failing_env ''/build/stage2'' (Str ''osg-client'') ''out.tgz'' None
          ''/scripts'' ''repo'' ''el6'' ''x86_64'' 0 None build_world) = Inr PyNone"
    by code_simp
  have b: "last (log (snd (make_stage2_tarball failing_env ''/build/stage2'' (Str ''osg-client'')
          ''out.tgz'' None ''/scripts'' ''repo'' ''el6'' ''x86_64'' 0 None build_world)))
       = ErrorMsg (repr ''osg-client'' @ '' not installed after yum install'')"
    by code_simp
  from a b show ?thesis by simp
qed

text \<open>
  C3 (as amended). When \<open>rpm -qa\<close> exits with a status other than 0,
  \<open>write_package_list_file\<close> raises \<open>subprocess.CalledProcessError\<close> with that status
  and the command line, and writes nothing: the file system is the one the command
  left. That exception is not an \<open>Error\<close>, so when \<open>make_stage2_tarball\<close> has come
  as far as the package list, the exception leaves it uncaught.
\<close>

theorem rpm_qa_failure_propagates:
  assumes "exec E (rpm_qa_cmd stage_dir_abs) (cwd w) (root w) = Some (rc, out, fs)" and "rc \<noteq> 0"
  shows "write_package_list_file E stage_dir_abs exclude_list w =
           (Inl (CalledProcessError rc (CmdStr (join_with '' '' (rpm_qa_cmd stage_dir_abs)))),
            w\<lparr>root := fs, calls := calls w @ [rpm_qa_cmd stage_dir_abs]\<rparr>)
       \<and> \<not> is_Error (CalledProcessError rc (CmdStr (join_with '' '' (rpm_qa_cmd stage_dir_abs))))
       \<and> (abspath stage_dir (start_msg stage_dir dver basearch w0) = (Inr stage_dir_abs, w1) \<longrightarrow>
          steps_to_manifest E stage_dir_abs packages patch_dirs post_scripts_dir repofile
             dver basearch relnum extra_repos w1 = (Inr stage1_rpmlist, w) \<longrightarrow>
          fst (make_stage2_tarball E stage_dir packages tarball patch_dirs post_scripts_dir repofile
                 dver basearch relnum extra_repos w0)
            = Inl (CalledProcessError rc (CmdStr (join_with '' '' (rpm_qa_cmd stage_dir_abs))))
          \<and> root (snd (make_stage2_tarball E stage_dir packages tarball patch_dirs post_scripts_dir
                 repofile dver basearch relnum extra_repos w0)) = fs)"
proof (intro conjI impI)
  let ?e = "CalledProcessError rc (CmdStr (join_with '' '' (rpm_qa_cmd stage_dir_abs)))"
  show "write_package_list_file E stage_dir_abs exclude_list w =
           (Inl ?e, w\<lparr>root := fs, calls := calls w @ [rpm_qa_cmd stage_dir_abs]\<rparr>)"
    using assms by (rule write_package_list_file_fails)
  show "\<not> is_Error ?e"
    by simp
  assume a: "abspath stage_dir (start_msg stage_dir dver basearch w0) = (Inr stage_dir_abs, w1)"
    and b: "steps_to_manifest E stage_dir_abs packages patch_dirs post_scripts_dir repofile
             dver basearch relnum extra_repos w1 = (Inr stage1_rpmlist, w)"
  let ?w' = "w\<lparr>log := log w @ [Status (''['' @ repr dver @ '','' @ repr basearch @ '']: ''
                @ ''Writing package list to osg/rpm-versions.txt'')]\<rparr>"
  have "exec E (rpm_qa_cmd stage_dir_abs) (cwd ?w') (root ?w') = Some (rc, out, fs)"
    using assms(1) by simp
  from write_package_list_file_fails [OF this assms(2), of "Some (StrList stage1_rpmlist)"]
  have "steps_from_manifest E stage_dir stage_dir_abs tarball dver basearch stage1_rpmlist w =
          (Inl ?e, ?w'\<lparr>root := fs, calls := calls ?w' @ [rpm_qa_cmd stage_dir_abs]\<rparr>)"
    by (simp add: steps_from_manifest_def stage_statusmsg_apply io_then_def io_bind_def)
  with b have blk: "stage2_try_block E stage_dir stage_dir_abs packages tarball patch_dirs
      post_scripts_dir repofile dver basearch relnum extra_repos w1 =
        (Inl ?e, ?w'\<lparr>root := fs, calls := calls ?w' @ [rpm_qa_cmd stage_dir_abs]\<rparr>)"
    by (simp add: stage2_try_block_def io_bind_def)
  note run = make_stage2_tarball_by_block [OF a blk]
  from run show "fst (make_stage2_tarball E stage_dir packages tarball patch_dirs post_scripts_dir
      repofile dver basearch relnum extra_repos w0) = Inl ?e"
    by simp
  from run show "root (snd (make_stage2_tarball E stage_dir packages tarball patch_dirs
      post_scripts_dir repofile dver basearch relnum extra_repos w0)) = fs"
    by simp
qed

theorem rpm_qa_failure_propagates_witness:
  "abspath ''/build/stage2'' (start_msg ''/build/stage2'' ''el6'' ''x86_64'' build_world)
     = (Inr ''/build/stage2'', start_msg ''/build/stage2'' ''el6'' ''x86_64'' build_world)
   \<and> fst (steps_to_manifest qa_failing_env ''/build/stage2'' (Str ''osg-client'') None ''/scripts''
            ''repo'' ''el6'' ''x86_64'' 0 None
            (start_msg ''/build/stage2'' ''el6'' ''x86_64'' build_world)) = Inr [''a-1-1'', ''b-2-1'']
   \<and> exec qa_failing_env (rpm_qa_cmd ''/build/stage2'') (cwd build_world) (root build_world)
       = Some (1, [], root build_world)
   \<and> write_package_list_file qa_failing_env ''/build/stage2'' None build_world =
       (Inl (CalledProcessError 1 (CmdStr ''rpm --root /build/stage2 -qa'')),
        build_world\<lparr>root := root build_world, calls := calls build_world @ [rpm_qa_cmd ''/build/stage2'']\<rparr>)
   \<and> fst (make_stage2_tarball qa_failing_env ''/build/stage2'' (Str ''osg-client'') ''out.tgz'' None
            ''/scripts'' ''repo'' ''el6'' ''x86_64'' 0 None build_world)
       = Inl (CalledProcessError 1 (CmdStr ''rpm --root /build/stage2 -qa''))"
proof -
  let ?w1 = "start_msg ''/build/stage2'' ''el6'' ''x86_64'' build_world"
  let ?steps = "steps_to_manifest qa_failing_env ''/build/stage2'' (Str ''osg-client'') None ''/scripts''
            ''repo'' ''el6'' ''x86_64'' 0 None ?w1"
  have a: "exec qa_failing_env (rpm_qa_cmd ''/build/stage2'') (cwd build_world) (root build_world)
     = Some (1, [], root build_world)"
    by code_simp
  have b: "(1::int) \<noteq> 0"
    by simp
  have c: "join_with '' '' (rpm_qa_cmd ''/build/stage2'') = ''rpm --root /build/stage2 -qa''"
    by code_simp
  have d: "abspath ''/build/stage2'' ?w1 = (Inr ''/build/stage2'', ?w1)"
    by code_simp
  have e: "fst ?steps = Inr [''a-1-1'', ''b-2-1'']"
    by code_simp
  then have steps: "?steps = (Inr [''a-1-1'', ''b-2-1''], snd ?steps)"
    by (cases ?steps) simp
  have a': "exec qa_failing_env (rpm_qa_cmd ''/build/stage2'') (cwd (snd ?steps)) (root (snd ?steps))
     = Some (1, [], root (snd ?steps))"
    by (simp add: qa_failing_env_def quiet_env_def rpm_qa_cmd_def)
  from rpm_qa_failure_propagates [OF a b, of None] c
  have first: "write_package_list_file qa_failing_env ''/build/stage2'' None build_world =
       (Inl (CalledProcessError 1 (CmdStr ''rpm --root /build/stage2 -qa'')),
        build_world\<lparr>root := root build_world, calls := calls build_world @ [rpm_qa_cmd ''/build/stage2'']\<rparr>)"
    by simp
  from rpm_qa_failure_propagates [OF a' b, of None "''/build/stage2''" "''el6''" "''x86_64''"
      build_world ?w1 "Str ''osg-client''" None "''/scripts''" "''repo''" 0 None
      "[''a-1-1'', ''b-2-1'']" "''out.tgz''"] c d steps
  have top: "fst (make_stage2_tarball qa_failing_env ''/build/stage2'' (Str ''osg-client'') ''out.tgz'' None
            ''/scripts'' ''repo'' ''el6'' ''x86_64'' 0 None build_world)
       = Inl (CalledProcessError 1 (CmdStr ''rpm --root /build/stage2 -qa''))"
    by simp
  from d e a first top show ?thesis
    by blast
qed

text \<open>The claim as stated, that the error is of the program's own kind and is handled
  at the top level, fails on a run whose \<open>rpm -qa\<close> exits with 1.\<close>

theorem rpm_qa_failure_escapes_top_level:
  "fst (make_stage2_tarball qa_failing_env ''/build/stage2'' (Str ''osg-client'') ''out.tgz'' None
          ''/scripts'' ''repo'' ''el6'' ''x86_64'' 0 None build_world)
     = Inl (CalledProcessError 1 (CmdStr ''rpm --root /build/stage2 -qa''))
   \<and> \<not> is_Error (CalledProcessError 1 (CmdStr ''rpm --root /build/stage2 -qa''))"
proof -
  have "fst (make_stage2_tarball qa_failing_env ''/build/stage2'' (Str ''osg-client'') ''out.tgz'' None
          ''/scripts'' ''repo'' ''el6'' ''x86_64'' 0 None build_world)
     = Inl (CalledProcessError 1 (CmdStr ''rpm --root /build/stage2 -qa''))"
    by code_simp
  then show ?thesis by simp
qed

text \<open>
  C1. Where the staging root has no \<open>stage1_filelist\<close>, \<open>tar_stage_dir\<close> writes no
  exclude file and runs \<open>tar\<close> without \<open>--exclude-from\<close>: the deny-list never reaches
  the archive tool, which is asked for the whole directory, \<open>tmp/junk\<close> and
  \<open>stage1_rpmlist\<close> with it.
\<close>

theorem tar_stage_dir_without_filelist:
  "\<not> isfile build_world ''/build/stage2/stage1_filelist''
   \<and> isfile build_world ''/build/stage2/tmp/junk''
   \<and> isfile build_world ''/build/stage2/stage1_rpmlist''
   \<and> tar_stage_dir quiet_env ''/build/stage2'' ''out.tgz'' build_world =
       (Inr (), build_world\<lparr>calls := [[''tar'', ''-C'', ''/build'', ''-czf'', ''/out.tgz'', ''stage2'']]\<rparr>)"
  by code_simp

text \<open>
  C7. \<open>line.lstrip('./')\<close> removes every leading dot and slash, not a leading \<open>./\<close>:
  the baseline entries \<open>.bashrc\<close> and \<open>./.ssh/config\<close> are written as
  \<open>stage2/bashrc\<close> and \<open>stage2/ssh/config\<close>, not as the entries joined to \<open>stage2\<close>.
\<close>

theorem write_exclude_list_drops_leading_dots:
  "fst (io_then (write_exclude_list ''/build/stage2/stage1_filelist'' ''/build/exclude_list'' ''stage2'' [])
          (read_file ''/build/exclude_list'') filelist_world)
     = Inr ''stage2/etc/foo.conf\<newline>stage2/bashrc\<newline>stage2/ssh/config\<newline>''
   \<and> path_join ''stage2'' ''.bashrc\<newline>'' = ''stage2/.bashrc\<newline>''
   \<and> path_join ''stage2'' (lstrip ''./'' ''.bashrc\<newline>'') = ''stage2/bashrc\<newline>''"
  by code_simp

text \<open>
  C5. \<open>os.walk\<close> sorts a symbolic link that resolves to a directory into \<open>dirs\<close>, and
  the loop looks at \<open>files\<close> only. On a build host that has \<open>/etc/alternatives/jre\<close>
  itself, the link \<open>usr/lib/jvm/jre -> /etc/alternatives/jre\<close> of the staging root,
  whose chain ends at a directory that exists in the staging root, keeps its absolute
  target; on a host without it the very same link is rewritten to \<open>jre-1.7.0\<close>. The
  link to a file, \<open>usr/bin/x\<close>, is rewritten to \<open>x-real\<close>.
\<close>

theorem fix_alternatives_symlinks_skips_directory_links:
  "islink java_host_world ''/stage/usr/lib/jvm/jre''
   \<and> fst (readlink ''/stage/usr/lib/jvm/jre'' java_host_world) = Inr ''/etc/alternatives/jre''
   \<and> fst (readlink ''/stage/etc/alternatives/jre'' java_host_world) = Inr ''/usr/lib/jvm/jre-1.7.0''
   \<and> exists java_host_world ''/stage/usr/lib/jvm/jre-1.7.0''
   \<and> fst (io_then (fix_alternatives_symlinks ''/stage'') (readlink ''/stage/usr/lib/jvm/jre'')
            java_host_world) = Inr ''/etc/alternatives/jre''
   \<and> fst (io_then (fix_alternatives_symlinks ''/stage'') (readlink ''/stage/usr/lib/jvm/jre'')
            plain_host_world) = Inr ''jre-1.7.0''
   \<and> fst (io_then (fix_alternatives_symlinks ''/stage'') (readlink ''/stage/usr/bin/x'')
            java_host_world) = Inr ''x-real''"
  by code_simp

text \<open>
  C6. The patches are applied in the order of a stable sort on their basenames: the
  sort by \<open>_cmp_basename\<close> is the stable sort with the basename as key, so its result
  is sorted by basename whatever the directories are, it is a rearrangement of the
  collected files, and the files of one basename keep the order in which the
  directories were gone through. \<open>patch_installed_packages\<close> runs \<open>patch\<close> on the
  files in that order, up to the first one that fails, and on all of them when it
  returns.
\<close>

theorem patches_applied_in_basename_order:
  "sort_cmp cmp_basename xs = sort_key basename xs
   \<and> sorted (map basename (sort_cmp cmp_basename xs))
   \<and> mset (sort_cmp cmp_basename xs) = mset xs
   \<and> filter (\<lambda>p. basename p = k) (sort_cmp cmp_basename (concat per_dir))
       = concat (map (filter (\<lambda>p. basename p = k)) per_dir)
   \<and> (abspath_each patch_dirs w = (Inr patch_dirs_abs, w) \<longrightarrow>
      getcwd w = (Inr oldwd, w) \<longrightarrow>
      chdir stage_dir_abs w = (Inr (), w1) \<longrightarrow>
      (\<exists>n. calls (snd (patch_installed_packages E stage_dir_abs patch_dirs dver w))
            = calls w @ map patch_cmd
                (take n (sort_cmp cmp_basename (collect_patches E patch_dirs_abs w1)))
          \<and> (fst (patch_installed_packages E stage_dir_abs patch_dirs dver w) = Inr ()
               \<longrightarrow> n = length (collect_patches E patch_dirs_abs w1))))"
proof (intro conjI impI)
  show "sort_cmp cmp_basename xs = sort_key basename xs"
    by (rule sort_cmp_basename)
  show "sorted (map basename (sort_cmp cmp_basename xs))"
    by (simp add: sort_cmp_basename)
  show "mset (sort_cmp cmp_basename xs) = mset xs"
    by (simp add: sort_cmp_basename)
  show "filter (\<lambda>p. basename p = k) (sort_cmp cmp_basename (concat per_dir))
       = concat (map (filter (\<lambda>p. basename p = k)) per_dir)"
    by (simp add: sort_cmp_basename sort_key_stable filter_concat)
next
  assume "abspath_each patch_dirs w = (Inr patch_dirs_abs, w)" "getcwd w = (Inr oldwd, w)"
    "chdir stage_dir_abs w = (Inr (), w1)"
  then show "\<exists>n. calls (snd (patch_installed_packages E stage_dir_abs patch_dirs dver w))
            = calls w @ map patch_cmd
                (take n (sort_cmp cmp_basename (collect_patches E patch_dirs_abs w1)))
          \<and> (fst (patch_installed_packages E stage_dir_abs patch_dirs dver w) = Inr ()
               \<longrightarrow> n = length (collect_patches E patch_dirs_abs w1))"
    by (rule patch_installed_packages_calls)
qed

theorem patches_applied_in_basename_order_witness:
  "abspath_each [''/patches/common'', ''/patches/el6''] build_world
     = (Inr [''/patches/common'', ''/patches/el6''], build_world)
   \<and> getcwd build_world = (Inr ''/'', build_world)
   \<and> chdir ''/build/stage2'' build_world = (Inr (), build_world\<lparr>cwd := [''build'', ''stage2'']\<rparr>)
   \<and> collect_patches patch_env [''/patches/common'', ''/patches/el6'']
        (build_world\<lparr>cwd := [''build'', ''stage2'']\<rparr>)
       = [''/patches/common/03-paths.patch'', ''/patches/common/01-config.patch'',
          ''/patches/el6/02-init.patch'', ''/patches/el6/01-config.patch'']
   \<and> calls (snd (patch_installed_packages patch_env ''/build/stage2''
                [''/patches/common'', ''/patches/el6''] ''el6'' build_world))
       = map patch_cmd
           [''/patches/common/01-config.patch'', ''/patches/el6/01-config.patch'',
            ''/patches/el6/02-init.patch'', ''/patches/common/03-paths.patch'']"
proof -
  let ?w1 = "build_world\<lparr>cwd := [''build'', ''stage2'']\<rparr>"
  let ?run = "patch_installed_packages patch_env ''/build/stage2''
                [''/patches/common'', ''/patches/el6''] ''el6'' build_world"
  have a: "abspath_each [''/patches/common'', ''/patches/el6''] build_world
     = (Inr [''/patches/common'', ''/patches/el6''], build_world)"
    by code_simp
  have b: "getcwd build_world = (Inr ''/'', build_world)"
    by code_simp
  have c: "chdir ''/build/stage2'' build_world = (Inr (), ?w1)"
    by code_simp
  have d: "collect_patches patch_env [''/patches/common'', ''/patches/el6''] ?w1
       = [''/patches/common/03-paths.patch'', ''/patches/common/01-config.patch'',
          ''/patches/el6/02-init.patch'', ''/patches/el6/01-config.patch'']"
    by code_simp
  have s: "sort_cmp cmp_basename
             [''/patches/common/03-paths.patch'', ''/patches/common/01-config.patch'',
              ''/patches/el6/02-init.patch'', ''/patches/el6/01-config.patch'']
           = [''/patches/common/01-config.patch'', ''/patches/el6/01-config.patch'',
              ''/patches/el6/02-init.patch'', ''/patches/common/03-paths.patch'']"
    by code_simp
  have ok: "fst ?run = Inr ()"
    by code_simp
  have e: "calls build_world = []"
    by code_simp
  from patches_applied_in_basename_order [of "[]" "[]" "[]" "[''/patches/common'', ''/patches/el6'']"
      build_world "[''/patches/common'', ''/patches/el6'']" "''/''" "''/build/stage2''" ?w1
      patch_env "''el6''"] a b c
  obtain n where n: "calls (snd ?run) = calls build_world @ map patch_cmd
                (take n (sort_cmp cmp_basename (collect_patches patch_env
                   [''/patches/common'', ''/patches/el6''] ?w1)))"
      "fst ?run = Inr () \<longrightarrow> n = length (collect_patches patch_env
                   [''/patches/common'', ''/patches/el6''] ?w1)"
    by blast
  from n ok d have "n = 4" by simp
  with n(1) d s e have "calls (snd ?run) = map patch_cmd
           [''/patches/common/01-config.patch'', ''/patches/el6/01-config.patch'',
            ''/patches/el6/02-init.patch'', ''/patches/common/03-paths.patch'']"
    by simp
  with a b c d show ?thesis by blast
qed

text \<open>
  C8. When \<open>rpm -qa\<close> exits with 0, \<open>write_package_list_file\<close> writes to
  \<open>osg/rpm-versions.txt\<close> under the staging root exactly the text the spec describes:
  the installed packages (the words of the command's output) less the baseline set,
  each once, sorted, joined by newlines, with a newline at the end; when the write
  succeeds that is what the file then holds, one package to a line. The spec's
  example: baseline \<open>{a-1-1, b-2-1}\<close> and installed \<open>{a-1-1, b-2-1, c-3-1}\<close> give
  \<open>"c-3-1\\n"\<close>.
\<close>

theorem write_package_list_file_manifest:
  assumes "exec E (rpm_qa_cmd stage_dir_abs) (cwd w) (root w) = Some (0, out, fs)"
  shows "write_package_list_file E stage_dir_abs exclude_list w =
           write_file (path_join stage_dir_abs ''osg/rpm-versions.txt'')
             (manifest_text (set (split (strip out))) (set (exclude_list_arg exclude_list)))
             (w\<lparr>root := fs, calls := calls w @ [rpm_qa_cmd stage_dir_abs]\<rparr>)
     \<and> (write_package_list_file E stage_dir_abs exclude_list w = (Inr (), w') \<longrightarrow>
          read_file (path_join stage_dir_abs ''osg/rpm-versions.txt'') w'
            = (Inr (manifest_text (set (split (strip out))) (set (exclude_list_arg exclude_list))), w'))
     \<and> sorted (sorted_list_of_set (set (split (strip out)) - set (exclude_list_arg exclude_list)))
     \<and> distinct (sorted_list_of_set (set (split (strip out)) - set (exclude_list_arg exclude_list)))
     \<and> set (sorted_list_of_set (set (split (strip out)) - set (exclude_list_arg exclude_list)))
         = set (split (strip out)) - set (exclude_list_arg exclude_list)
     \<and> (set (split (strip out)) - set (exclude_list_arg exclude_list) \<noteq> {} \<longrightarrow>
          file_lines [] (manifest_text (set (split (strip out))) (set (exclude_list_arg exclude_list)))
            = map (\<lambda>p. p @ [nl])
                (sorted_list_of_set (set (split (strip out)) - set (exclude_list_arg exclude_list))))
     \<and> manifest_text {''a-1-1'', ''b-2-1'', ''c-3-1''} {''a-1-1'', ''b-2-1''} = ''c-3-1\<newline>''"
proof (intro conjI impI)
  let ?pkgs = "set (split (strip out)) - set (exclude_list_arg exclude_list)"
  let ?text = "manifest_text (set (split (strip out))) (set (exclude_list_arg exclude_list))"
  let ?w1 = "w\<lparr>root := fs, calls := calls w @ [rpm_qa_cmd stage_dir_abs]\<rparr>"
  have fin: "finite ?pkgs" by simp
  show run: "write_package_list_file E stage_dir_abs exclude_list w =
           write_file (path_join stage_dir_abs ''osg/rpm-versions.txt'') ?text ?w1"
    using write_package_list_file_ok [OF assms] by (simp add: manifest_path_def)
  show "sorted (sorted_list_of_set ?pkgs)"
    by simp
  show "distinct (sorted_list_of_set ?pkgs)"
    by simp
  show "set (sorted_list_of_set ?pkgs) = ?pkgs"
    using fin by simp
  show "manifest_text {''a-1-1'', ''b-2-1'', ''c-3-1''} {''a-1-1'', ''b-2-1''} = ''c-3-1\<newline>''"
  proof -
    have "{''a-1-1'', ''b-2-1'', ''c-3-1''} - {''a-1-1'', ''b-2-1''} = {''c-3-1''}"
      by auto
    then show ?thesis
      by (simp add: manifest_text_def nl_def)
  qed
  {
    assume "write_package_list_file E stage_dir_abs exclude_list w = (Inr (), w')"
    with run have "write_file (path_join stage_dir_abs ''osg/rpm-versions.txt'') ?text ?w1 = (Inr (), w')"
      by simp
    then show "read_file (path_join stage_dir_abs ''osg/rpm-versions.txt'') w' = (Inr ?text, w')"
      by (rule write_file_read_back)
  }
  {
    assume ne: "?pkgs \<noteq> {}"
    have l: "sorted_list_of_set ?pkgs \<noteq> []"
      using ne fin by (simp add: sorted_list_of_set_eq_Nil_iff)
    have "nl \<notin> set x" if "x \<in> set (sorted_list_of_set ?pkgs)" for x
    proof -
      from that fin have "x \<in> set (split (strip out))" by simp
      then show ?thesis by (rule split_token_no_nl)
    qed
    with l show "file_lines [] ?text = map (\<lambda>p. p @ [nl]) (sorted_list_of_set ?pkgs)"
      unfolding manifest_text_def by (intro file_lines_join) auto
  }
qed

theorem write_package_list_file_manifest_witness:
  "exec listing_env (rpm_qa_cmd ''/build/stage2'') (cwd build_world) (root build_world)
     = Some (0, ''a-1-1\<newline>b-2-1\<newline>c-3-1\<newline>'', root build_world)
   \<and> fst (write_package_list_file listing_env ''/build/stage2''
            (Some (StrList [''a-1-1'', ''b-2-1''])) build_world) = Inr ()
   \<and> fst (read_file ''/build/stage2/osg/rpm-versions.txt''
            (snd (write_package_list_file listing_env ''/build/stage2''
                    (Some (StrList [''a-1-1'', ''b-2-1''])) build_world)))
       = Inr ''c-3-1\<newline>''"
proof -
  let ?run = "write_package_list_file listing_env ''/build/stage2''
            (Some (StrList [''a-1-1'', ''b-2-1''])) build_world"
  have a: "exec listing_env (rpm_qa_cmd ''/build/stage2'') (cwd build_world) (root build_world)
     = Some (0, ''a-1-1\<newline>b-2-1\<newline>c-3-1\<newline>'', root build_world)"
    by code_simp
  have ok: "fst ?run = Inr ()"
    by code_simp
  have t: "manifest_text (set (split (strip ''a-1-1\<newline>b-2-1\<newline>c-3-1\<newline>'')))
             (set (exclude_list_arg (Some (StrList [''a-1-1'', ''b-2-1''])))) = ''c-3-1\<newline>''"
    by code_simp
  have p: "path_join ''/build/stage2'' ''osg/rpm-versions.txt'' = ''/build/stage2/osg/rpm-versions.txt''"
    by code_simp
  from ok have run: "?run = (Inr (), snd ?run)"
    by (cases ?run) simp
  from write_package_list_file_manifest [OF a, of "Some (StrList [''a-1-1'', ''b-2-1''])" "snd ?run"] run
  have "read_file (path_join ''/build/stage2'' ''osg/rpm-versions.txt'') (snd ?run)
          = (Inr (manifest_text (set (split (strip ''a-1-1\<newline>b-2-1\<newline>c-3-1\<newline>'')))
                (set (exclude_list_arg (Some (StrList [''a-1-1'', ''b-2-1'']))))), snd ?run)"
    by blast
  with t p have "fst (read_file ''/build/stage2/osg/rpm-versions.txt'' (snd ?run)) = Inr ''c-3-1\<newline>''"
    by simp
  with a ok show ?thesis by blast
qed

text \<open>
  C9. Whatever \<open>patch_installed_packages\<close> and \<open>remove_empty_dirs_from_tarball\<close>
  end with, a value or an exception raised at any point, the working directory of the
  process is afterwards the one it was on entry. The working directory is a location
  of proper names, and the commands run and \<open>safe_makedirs\<close> do not take the entry
  directory away (else \<open>os.chdir(oldwd)\<close> in the \<open>finally\<close> block has nowhere to go
  back to).
\<close>

theorem working_directory_restored:
  assumes "list_all valid_name (cwd w)" and "tools_keep_dir E (cwd w)"
  shows "cwd (snd (patch_installed_packages E stage_dir_abs patch_dirs dver w)) = cwd w
     \<and> cwd (snd (remove_empty_dirs_from_tarball E tarball topdir recreate_dirs w)) = cwd w"
  using assms patch_installed_packages_cwd remove_empty_dirs_from_tarball_cwd by blast

theorem working_directory_restored_witness:
  "list_all valid_name (cwd scripts_world)
   \<and> tools_keep_dir failing_patch_env (cwd scripts_world)
   \<and> cwd scripts_world = [''scripts'']
   \<and> fst (patch_installed_packages failing_patch_env ''/build/stage2''
            [''/patches/common'', ''/patches/el6''] ''el6'' scripts_world)
       = Inl (Error (''patch file '' @ repr ''/patches/common/01-config.patch'' @ '' failed to apply''))
   \<and> cwd (snd (patch_installed_packages failing_patch_env ''/build/stage2''
            [''/patches/common'', ''/patches/el6''] ''el6'' scripts_world)) = [''scripts'']
   \<and> fst (remove_empty_dirs_from_tarball failing_patch_env ''out.tgz'' ''stage2''
            [''var/lib/osg-ca-certs''] scripts_world)
       = Inl (CalledProcessError 1 (CmdList [''tar'', ''-xzf'', ''/scripts/out.tgz'']))
   \<and> cwd (snd (remove_empty_dirs_from_tarball failing_patch_env ''out.tgz'' ''stage2''
            [''var/lib/osg-ca-certs''] scripts_world)) = [''scripts'']"
proof -
  have c: "cwd scripts_world = [''scripts'']"
    by code_simp
  have v: "list_all valid_name (cwd scripts_world)"
    by code_simp
  have t: "tools_keep_dir failing_patch_env (cwd scripts_world)"
    by (simp add: tools_keep_dir_def failing_patch_env_def patch_env_def quiet_env_def)
  have p: "fst (patch_installed_packages failing_patch_env ''/build/stage2''
            [''/patches/common'', ''/patches/el6''] ''el6'' scripts_world)
       = Inl (Error (''patch file '' @ repr ''/patches/common/01-config.patch'' @ '' failed to apply''))"
    by code_simp
  have r: "fst (remove_empty_dirs_from_tarball failing_patch_env ''out.tgz'' ''stage2''
            [''var/lib/osg-ca-certs''] scripts_world)
       = Inl (CalledProcessError 1 (CmdList [''tar'', ''-xzf'', ''/scripts/out.tgz'']))"
    by code_simp
  from working_directory_restored [OF v t, of "''/build/stage2''"
      "[''/patches/common'', ''/patches/el6'']" "''el6''" "''out.tgz''" "''stage2''"
      "[''var/lib/osg-ca-certs'']"] c v t p r
  show ?thesis
    by simp
qed

end
